theory Spec2Isabelle
  imports Main
begin

section \<open>Nimbus: event dispatch and plugin execution\<close>

text \<open>
  A shallow embedding of \<^verbatim>\<open>nimbus.py\<close> (class \<^verbatim>\<open>Nimbus\<close>) and of
  \<^verbatim>\<open>plugins/uptime.py\<close>. The program is Python 2 (\<^verbatim>\<open>file(...)\<close>,
  \<^verbatim>\<open>raw_input\<close>, \<^verbatim>\<open>e.message\<close>), so \<^verbatim>\<open>filter\<close> builds its list
  before the loop over it starts.
\<close>

subsection \<open>Python values, dictionaries, exceptions\<close>

text \<open>
  The values an event or a response draft holds: what the JSON of the chat service
  decodes to, without floating point numbers. Values are plain data here, with no
  identity of their own. The copy \<^verbatim>\<open>dict(event)\<close> is shallow: a list or dictionary
  nested in an event is shared by the original and by every copy, so a change made inside
  it through one of them shows in all of them. Such a change appears here as a change of
  the entries of every dictionary that holds the value, which is why the effect of a
  plugin (below) is a change of the whole store.
\<close>

datatype pyval =
    PNone
  | PBool bool
  | PInt int
  | PStr string
  | PList "pyval list"
  | PDict "(string \<times> pyval) list"

type_synonym pydict = "string \<Rightarrow> pyval option"

text \<open>Python's truth value of an object, as \<^verbatim>\<open>if event.get('hidden')\<close> tests it.\<close>

fun truthy :: "pyval \<Rightarrow> bool" where
  "truthy PNone = False"
| "truthy (PBool b) = b"
| "truthy (PInt i) = (i \<noteq> 0)"
| "truthy (PStr s) = (s \<noteq> [])"
| "truthy (PList vs) = (vs \<noteq> [])"
| "truthy (PDict kvs) = (kvs \<noteq> [])"

text \<open>\<^verbatim>\<open>d.get(k)\<close>: the value, or \<^verbatim>\<open>None\<close> for a missing key.\<close>

definition dict_get :: "pydict \<Rightarrow> string \<Rightarrow> pyval" where
  "dict_get d k = (case d k of None \<Rightarrow> PNone | Some v \<Rightarrow> v)"

text \<open>
  The exceptions the model tells apart. \<open>PluginException m t\<close> stands for an instance
  of \<^verbatim>\<open>PluginException\<close> or of a subclass, \<open>m\<close> being its \<^verbatim>\<open>message\<close>
  attribute; \<open>OtherException n t\<close> for an instance of any other class, named \<open>n\<close>. In
  both, \<open>t\<close> is the truth value of the exception object (\<^verbatim>\<open>bool(e)\<close>): an instance
  of \<^verbatim>\<open>BaseException\<close> is true unless its class defines \<^verbatim>\<open>__nonzero__\<close> or
  \<^verbatim>\<open>__len__\<close> to say otherwise, as a plugin's own exception class may.
\<close>

datatype exc =
    PluginException pyval bool
  | KeyError pyval
  | TypeError
  | OtherException string bool

text \<open>The truth value of an exception object, as \<^verbatim>\<open>if e:\<close> tests it.\<close>

fun exc_truth :: "exc \<Rightarrow> bool" where
  "exc_truth (PluginException m t) = t"
| "exc_truth (KeyError k) = True"
| "exc_truth TypeError = True"
| "exc_truth (OtherException n t) = t"

subsection \<open>Plugins\<close>

text \<open>
  \<^verbatim>\<open>plugin.py\<close> (classes \<^verbatim>\<open>Plugin\<close>, \<^verbatim>\<open>CommandPlugin\<close>,
  \<^verbatim>\<open>PluginException\<close>) is not among the sources. A plugin instance is the record of
  the attributes the engine reads: the name of its class, \<^verbatim>\<open>event_type\<close>, and, for an
  instance of \<^verbatim>\<open>CommandPlugin\<close> only, the command attributes that
  \<^verbatim>\<open>uptime.py\<close> sets (\<open>help_text\<close> is the attribute \<^verbatim>\<open>help\<close>). Its behaviour \<^verbatim>\<open>on_event(event, response)\<close> is a
  parameter: given the store of dictionary objects and the addresses of its two
  arguments, it leaves the store in some new state (\<open>store_after\<close>: its own two
  dictionaries, and any dictionary that shares a nested value with them), makes some
  calls of its own to \<^verbatim>\<open>bot.sc.api_call\<close> (\<open>sends\<close>), and returns or raises. A
  plugin is taken not to change the attributes of the bot.
\<close>

type_synonym addr = nat

record effect =
  store_after :: "addr \<Rightarrow> pydict"
  sends :: "(string \<times> pydict) list"
  raised :: "exc option"

record command_info =
  triggers :: "string list"
  short_help :: string
  help_text :: string
  help_example :: "string list"

record plugin =
  cls_name :: string
  event_type :: string
  command :: "command_info option"
  on_event :: "(addr \<Rightarrow> pydict) \<Rightarrow> addr \<Rightarrow> addr \<Rightarrow> effect"

text \<open>\<^verbatim>\<open>isinstance(p, CommandPlugin)\<close>.\<close>

definition is_command :: "plugin \<Rightarrow> bool" where
  "is_command p = (command p \<noteq> None)"

subsection \<open>The bot and its world\<close>

text \<open>
  The configuration attributes of the \<^verbatim>\<open>Nimbus\<close> instance that the modelled methods
  read; they are set once in \<^verbatim>\<open>__init__\<close>.
\<close>

record settings =
  username :: string
  icon_emoji :: string
  command_prefix :: string
  debug_mode :: bool
  plugin_directory :: string

text \<open>
  One unit of work given to the executor: \<^verbatim>\<open>plugin.on_event\<close> with the two
  dictionary objects it was submitted with. The same response object is the one the
  completion callback closes over.
\<close>

record invocation =
  inv_plugin :: plugin
  inv_event :: addr
  inv_response :: addr

datatype log_entry =
    Info string
  | InfoEvent pydict
  | ErrorMsg string exc
  | ErrorExc exc

text \<open>
  The state the methods act on: \<^verbatim>\<open>self.plugins\<close>; a store of dictionary objects
  (\<open>cells\<close>, with every address from \<open>next_addr\<close> on unused), so that two references to
  one dictionary and two dictionaries with equal contents differ; the work submitted to
  \<^verbatim>\<open>self.executor\<close>, in order; the calls made to \<^verbatim>\<open>self.sc.api_call\<close>
  (method and keyword arguments), in order; and the records written to the log.
\<close>

record state =
  plugins :: "plugin list"
  cells :: "addr \<Rightarrow> pydict"
  next_addr :: addr
  submitted :: "invocation list"
  posted :: "(string \<times> pydict) list"
  logged :: "log_entry list"

datatype outcome = Returned state | Raised exc state

fun outcome_state :: "outcome \<Rightarrow> state" where
  "outcome_state (Returned st) = st"
| "outcome_state (Raised e st) = st"

fun outcome_exc :: "outcome \<Rightarrow> exc option" where
  "outcome_exc (Returned st) = None"
| "outcome_exc (Raised e st) = Some e"

text \<open>Creating a dictionary object: it gets the next unused address.\<close>

definition alloc :: "pydict \<Rightarrow> state \<Rightarrow> addr \<times> state" where
  "alloc d st =
     (next_addr st, st\<lparr>cells := (cells st)(next_addr st := d), next_addr := Suc (next_addr st)\<rparr>)"

definition log_append :: "log_entry \<Rightarrow> state \<Rightarrow> state" where
  "log_append l st = st\<lparr>logged := logged st @ [l]\<rparr>"

text \<open>
  \<^verbatim>\<open>self.sc.api_call(method, **kwargs)\<close>. The method of the client (package
  \<^verbatim>\<open>slackclient\<close>, not part of the program) is declared
  \<^verbatim>\<open>def api_call(self, method, **kwargs)\<close>: a keyword argument named like one of its
  parameters gives that parameter a second value, and Python raises \<^verbatim>\<open>TypeError\<close>
  before the method is entered. Otherwise the call is made, and recorded in \<open>posted\<close>;
  whether the client then returns or raises (a transport error) is the parameter
  \<open>client\<close>.
\<close>

definition api_call_params :: "string list" where
  "api_call_params = [''self'', ''method'']"

definition api_call ::
  "(string \<Rightarrow> pydict \<Rightarrow> exc option) \<Rightarrow> string \<Rightarrow> pydict \<Rightarrow> state \<Rightarrow> outcome" where
  "api_call client method kwargs st =
     (if \<exists>k\<in>set api_call_params. kwargs k \<noteq> None then Raised TypeError st
      else (let st1 = st\<lparr>posted := posted st @ [(method, kwargs)]\<rparr>
            in case client method kwargs of
                 None \<Rightarrow> Returned st1
               | Some e \<Rightarrow> Raised e st1))"

text \<open>The single quote character of the \<^verbatim>\<open>'%s'\<close> in the messages.\<close>

definition quoted :: "string \<Rightarrow> string" where
  "quoted s = [CHR 0x27] @ s @ [CHR 0x27]"

subsection \<open>\<^verbatim>\<open>Nimbus.process_event\<close>\<close>

text \<open>
  \<^verbatim>\<open>filter(lambda p: p.event_type == event['type'], self.plugins)\<close>: the lambda runs
  once for every plugin, and each run looks \<^verbatim>\<open>'type'\<close> up in the event, which raises
  \<^verbatim>\<open>KeyError\<close> when the key is missing. With no plugin the lambda never runs.
\<close>

fun filter_event_type :: "pydict \<Rightarrow> plugin list \<Rightarrow> exc + plugin list" where
  "filter_event_type event [] = Inr []"
| "filter_event_type event (p # ps) =
     (case event ''type'' of
        None \<Rightarrow> Inl (KeyError (PStr ''type''))
      | Some ty \<Rightarrow>
          (case filter_event_type event ps of
             Inl e \<Rightarrow> Inl e
           | Inr qs \<Rightarrow> Inr (if PStr (event_type p) = ty then p # qs else qs)))"

text \<open>
  The body of the \<^verbatim>\<open>for\<close> loop, once for every selected plugin: a new response
  dictionary, then the copy \<^verbatim>\<open>dict(event)\<close>, then the submission.
\<close>

definition new_response :: "settings \<Rightarrow> pydict \<Rightarrow> pydict" where
  "new_response cfg event =
     (let response = [''username'' \<mapsto> PStr (username cfg), ''icon_emoji'' \<mapsto> PStr (icon_emoji cfg)]
      in case event ''channel'' of
           None \<Rightarrow> response
         | Some c \<Rightarrow> response(''channel'' \<mapsto> c))"

fun submit_all :: "settings \<Rightarrow> addr \<Rightarrow> plugin list \<Rightarrow> state \<Rightarrow> state" where
  "submit_all cfg a [] st = st"
| "submit_all cfg a (p # ps) st =
     (let (r, st1) = alloc (new_response cfg (cells st a)) st;
          (c, st2) = alloc (cells st1 a) st1;
          st3 = st2\<lparr>submitted := submitted st2 @ [\<lparr>inv_plugin = p, inv_event = c, inv_response = r\<rparr>]\<rparr>
      in submit_all cfg a ps st3)"

text \<open>\<^verbatim>\<open>if self.debug_mode: log.info(event)\<close>.\<close>

definition debug_log :: "settings \<Rightarrow> addr \<Rightarrow> state \<Rightarrow> state" where
  "debug_log cfg a st = (if debug_mode cfg then log_append (InfoEvent (cells st a)) st else st)"

definition process_event :: "settings \<Rightarrow> addr \<Rightarrow> state \<Rightarrow> outcome" where
  "process_event cfg a st =
     (let st1 = debug_log cfg a st
      in case filter_event_type (cells st1 a) (plugins st1) of
           Inl e \<Rightarrow> Raised e st1
         | Inr ps \<Rightarrow> Returned (submit_all cfg a ps st1))"

subsection \<open>\<^verbatim>\<open>Nimbus.add_future_callback\<close>\<close>

text \<open>
  \<^verbatim>\<open>post_error_response\<close>, the callback of a completed future: \<open>e\<close> is what
  \<^verbatim>\<open>future.exception()\<close> returns, \<open>r\<close> the response object captured by the closure.
  The outer test is \<^verbatim>\<open>if e:\<close>, the truth value of the exception object, not its
  presence. \<^verbatim>\<open>json.dumps\<close> is a parameter (\<open>dumps\<close>): it returns a string or
  raises (on a value it cannot serialise), and the order in which it writes the keys of a
  dictionary is not fixed by the program. An exception of \<^verbatim>\<open>json.dumps\<close> or of the
  call to \<^verbatim>\<open>api_call\<close> leaves the callback; what the executor does with it is not
  part of the program.
\<close>

definition attach :: "plugin \<Rightarrow> pyval \<Rightarrow> pyval" where
  "attach p m =
     PDict [(''title'', PStr (''Error with plugin '' @ quoted (cls_name p))),
            (''text'', m),
            (''mrkdwn_in'', PList [PStr ''text'']),
            (''color'', PStr ''danger''),
            (''fallback'', m)]"

definition post_error_response ::
  "(pyval \<Rightarrow> exc + string) \<Rightarrow> (string \<Rightarrow> pydict \<Rightarrow> exc option) \<Rightarrow>
   plugin \<Rightarrow> addr \<Rightarrow> exc option \<Rightarrow> state \<Rightarrow> outcome" where
  "post_error_response dumps client p r e st =
     (case e of
        None \<Rightarrow> Returned st
      | Some x \<Rightarrow>
          if exc_truth x
          then (case x of
                  PluginException m t \<Rightarrow>
                    (case dumps (PList [attach p m]) of
                       Inl err \<Rightarrow> Raised err st
                     | Inr s \<Rightarrow>
                         (let response = (cells st r)(''attachments'' \<mapsto> PStr s);
                              st1 = st\<lparr>cells := (cells st)(r := response)\<rparr>
                          in api_call client ''chat.postMessage'' response st1))
                | _ \<Rightarrow> Returned (log_append (ErrorExc x) st))
          else Returned st)"

text \<open>
  The completion of one unit of work: the executor runs \<^verbatim>\<open>plugin.on_event\<close> on the
  two objects of the invocation, then the callback runs. Completions happen on worker
  threads at any time after the submission; they are steps of their own here, and
  \<^verbatim>\<open>process_event\<close> and \<^verbatim>\<open>run\<close> below are the steps of the main thread, which
  never waits for a completion.
\<close>

definition run_invocation ::
  "(pyval \<Rightarrow> exc + string) \<Rightarrow> (string \<Rightarrow> pydict \<Rightarrow> exc option) \<Rightarrow>
   invocation \<Rightarrow> state \<Rightarrow> outcome" where
  "run_invocation dumps client job st =
     (let eff = on_event (inv_plugin job) (cells st) (inv_event job) (inv_response job);
          st1 = st\<lparr>cells := store_after eff, posted := posted st @ sends eff\<rparr>
      in post_error_response dumps client (inv_plugin job) (inv_response job) (raised eff) st1)"

subsection \<open>\<^verbatim>\<open>Nimbus.run\<close>\<close>

text \<open>The body of \<^verbatim>\<open>for event in events\<close>, with its two \<^verbatim>\<open>continue\<close>s.\<close>

definition handle_event :: "settings \<Rightarrow> addr \<Rightarrow> state \<Rightarrow> outcome" where
  "handle_event cfg a st =
     (let event = cells st a
      in if dict_get event ''subtype'' = PStr ''bot_message'' then Returned st
         else if truthy (dict_get event ''hidden'') then Returned st
         else process_event cfg a st)"

fun handle_events :: "settings \<Rightarrow> addr list \<Rightarrow> state \<Rightarrow> outcome" where
  "handle_events cfg [] st = Returned st"
| "handle_events cfg (a # as) st =
     (case handle_event cfg a st of
        Raised e st1 \<Rightarrow> Raised e st1
      | Returned st1 \<Rightarrow> handle_events cfg as st1)"

text \<open>
  \<^verbatim>\<open>self.sc.rtm_read()\<close> returns a list of new dictionary objects; \<open>batch\<close> is their
  contents.
\<close>

fun rtm_read :: "pydict list \<Rightarrow> state \<Rightarrow> addr list \<times> state" where
  "rtm_read [] st = ([], st)"
| "rtm_read (d # ds) st =
     (let (a, st1) = alloc d st;
          (as, st2) = rtm_read ds st1
      in (a # as, st2))"

text \<open>
  The \<^verbatim>\<open>while True\<close> loop never returns: it goes on polling, or an exception ends it.
  It is run here on the results of its first polls, one batch for each turn of the loop:
  \<open>Polling st\<close> says that the loop has gone through all of them and is about to poll
  again, \<open>Crashed e st\<close> that the exception \<open>e\<close> left \<^verbatim>\<open>run\<close>.
  \<^verbatim>\<open>time.sleep\<close> changes nothing of the state.
\<close>

datatype run_result = Polling state | Crashed exc state

fun run_loop :: "settings \<Rightarrow> pydict list list \<Rightarrow> state \<Rightarrow> run_result" where
  "run_loop cfg [] st = Polling st"
| "run_loop cfg (batch # polls) st =
     (let (events, st1) = rtm_read batch st
      in case handle_events cfg events st1 of
           Raised e st2 \<Rightarrow> Crashed e st2
         | Returned st2 \<Rightarrow> run_loop cfg polls st2)"

definition run :: "settings \<Rightarrow> pydict list list \<Rightarrow> state \<Rightarrow> run_result" where
  "run cfg polls st = run_loop cfg polls (log_append (Info ''Starting bot loop...'') st)"

fun run_state :: "run_result \<Rightarrow> state" where
  "run_state (Polling st) = st"
| "run_state (Crashed e st) = st"

fun crash_of :: "run_result \<Rightarrow> exc option" where
  "crash_of (Polling st) = None"
| "crash_of (Crashed e st) = Some e"

subsection \<open>\<^verbatim>\<open>Nimbus.register_plugin\<close> and \<^verbatim>\<open>Nimbus.load_plugins\<close>\<close>

text \<open>
  A plugin class: its \<^verbatim>\<open>__name__\<close> and what calling it does. \<open>k_init\<close> is given the
  positional arguments of the call and returns the new instance or the exception raised;
  a call with a number of arguments the initializer does not take raises
  \<^verbatim>\<open>TypeError\<close>. The bot passes itself, seen here as its settings.
\<close>

record klass =
  k_name :: string
  k_init :: "settings list \<Rightarrow> exc + plugin"

definition register_plugin :: "settings \<Rightarrow> klass \<Rightarrow> state \<Rightarrow> bool \<times> state" where
  "register_plugin cfg k st =
     (case k_init k [cfg] of
        Inr p \<Rightarrow>
          (True, log_append (Info (''Successfully loaded plugin '' @ quoted (k_name k)))
                   (st\<lparr>plugins := plugins st @ [p]\<rparr>))
      | Inl e \<Rightarrow>
          (False, log_append (ErrorMsg (''Error loading plugin '' @ k_name k @ ''! Skipping...'') e) st))"

text \<open>\<^verbatim>\<open>os.path.splitext\<close> on a file name without directory part.\<close>

definition splitext :: "string \<Rightarrow> string \<times> string" where
  "splitext f =
     (let lead = takeWhile (\<lambda>c. c = CHR ''.'') f;
          rest = dropWhile (\<lambda>c. c = CHR ''.'') f;
          ext = rev (takeWhile (\<lambda>c. c \<noteq> CHR ''.'') (rev rest))
      in if CHR ''.'' \<in> set rest
         then (lead @ take (length rest - length ext - 1) rest, CHR ''.'' # ext)
         else (f, []))"

text \<open>Decimal digits of a number, as \<^verbatim>\<open>'%s' % n\<close> writes them.\<close>

fun str_nat :: "nat \<Rightarrow> string" where
  "str_nat n = (if n < 10 then [''0123456789'' ! n] else str_nat (n div 10) @ [''0123456789'' ! (n mod 10)])"

declare str_nat.simps [simp del]

text \<open>The loop \<^verbatim>\<open>for name, klass in classes\<close>, counting in \<^verbatim>\<open>num_plugins\<close>.\<close>

fun register_classes :: "settings \<Rightarrow> klass list \<Rightarrow> state \<Rightarrow> nat \<Rightarrow> state \<times> nat" where
  "register_classes cfg [] st num_plugins = (st, num_plugins)"
| "register_classes cfg (k # ks) st num_plugins =
     (let (ok, st1) = register_plugin cfg k st
      in register_classes cfg ks st1 (if ok then num_plugins + 1 else num_plugins))"

text \<open>
  The loop over \<^verbatim>\<open>os.listdir(self.plugin_directory)\<close>. Each directory entry comes with
  what importing it as a module and listing its plugin classes
  (\<^verbatim>\<open>inspect.getmembers\<close>) gives: the classes, or the exception of the import, which
  nothing catches.
\<close>

fun load_files ::
  "settings \<Rightarrow> (string \<times> (exc + klass list)) list \<Rightarrow> state \<Rightarrow> nat \<Rightarrow> exc \<times> state + state \<times> nat" where
  "load_files cfg [] st num_plugins = Inr (st, num_plugins)"
| "load_files cfg ((f, imported) # fs) st num_plugins =
     (if snd (splitext f) = ''.py''
      then (case imported of
              Inl e \<Rightarrow> Inl (e, st)
            | Inr classes \<Rightarrow>
                (let (st1, n1) = register_classes cfg classes st num_plugins
                 in load_files cfg fs st1 n1))
      else load_files cfg fs st num_plugins)"

definition load_plugins :: "settings \<Rightarrow> (string \<times> (exc + klass list)) list \<Rightarrow> state \<Rightarrow> outcome" where
  "load_plugins cfg listing st =
     (let st0 = log_append (Info (''Loading plugins from directory '' @ quoted (plugin_directory cfg) @ ''...'')) st
      in case load_files cfg listing st0 0 of
           Inl (e, st1) \<Rightarrow> Raised e st1
         | Inr (st1, num_plugins) \<Rightarrow>
             Returned (log_append (Info (''Loaded '' @ str_nat num_plugins @ '' plugins!'')) st1))"

subsection \<open>\<^verbatim>\<open>Nimbus.get_command\<close>\<close>

text \<open>The inner loop \<^verbatim>\<open>for trig in plugin.triggers\<close>: is there an equal trigger?\<close>

fun trigger_in :: "string \<Rightarrow> string list \<Rightarrow> bool" where
  "trigger_in trigger [] = False"
| "trigger_in trigger (trig # trigs) = (if trigger = trig then True else trigger_in trigger trigs)"

text \<open>
  The outer loop, over the plugins that are instances of \<^verbatim>\<open>CommandPlugin\<close>; the
  others are skipped by the \<^verbatim>\<open>filter\<close>. Falling off the end returns \<^verbatim>\<open>None\<close>.
\<close>

fun get_command_loop :: "string \<Rightarrow> plugin list \<Rightarrow> plugin option" where
  "get_command_loop trigger [] = None"
| "get_command_loop trigger (p # ps) =
     (case command p of
        None \<Rightarrow> get_command_loop trigger ps
      | Some c \<Rightarrow> if trigger_in trigger (triggers c) then Some p else get_command_loop trigger ps)"

definition get_command :: "state \<Rightarrow> string \<Rightarrow> plugin option" where
  "get_command st trigger = get_command_loop trigger (plugins st)"

subsection \<open>Command routing\<close>

text \<open>
  \<^verbatim>\<open>CommandPlugin.on_event\<close> and \<^verbatim>\<open>CommandPlugin.__init__\<close> are in
  \<^verbatim>\<open>plugin.py\<close>, which is not among the sources. The spec (4.2) has
  \<^verbatim>\<open>onCommand\<close> invoked in place of \<^verbatim>\<open>onEvent\<close> for events whose type is the
  message discriminator and whose leading token matches one of the plugin's triggers, the
  leading token being the first whitespace-delimited token of the message text after the
  command prefix is stripped, compared by exact, case-sensitive string equality.
\<close>

text \<open>
  Modelled from the spec: the whitespace that delimits the tokens of a message text, taken
  to be what \<^verbatim>\<open>str.split\<close> skips (the splitting is in
  \<^verbatim>\<open>CommandPlugin.on_event\<close>, not among the sources).
\<close>

definition is_space :: "char \<Rightarrow> bool" where
  "is_space c = (c \<in> set [CHR '' '', CHR 0x09, CHR 0x0A, CHR 0x0B, CHR 0x0C, CHR 0x0D])"

text \<open>
  Modelled from the spec: the leading token of a message text, which
  \<^verbatim>\<open>CommandPlugin.on_event\<close> (not among the sources) extracts. The text must start
  with the command prefix; the token is the first whitespace-delimited word of what
  follows the prefix.
\<close>

definition leading_token :: "string \<Rightarrow> string \<Rightarrow> string option" where
  "leading_token prefix txt =
     (if take (length prefix) txt = prefix
      then (let tok = takeWhile (\<lambda>c. \<not> is_space c) (dropWhile is_space (drop (length prefix) txt))
            in if tok = [] then None else Some tok)
      else None)"

text \<open>
  Modelled from the spec: the leading token of an event, which
  \<^verbatim>\<open>CommandPlugin.on_event\<close> (not among the sources) compares with the triggers; an
  event without a \<^verbatim>\<open>text\<close> string has none.
\<close>

definition event_token :: "settings \<Rightarrow> pydict \<Rightarrow> string option" where
  "event_token cfg event =
     (case event ''text'' of
        Some (PStr txt) \<Rightarrow> leading_token (command_prefix cfg) txt
      | _ \<Rightarrow> None)"

text \<open>
  Modelled from the spec: the plugins whose \<^verbatim>\<open>on_command\<close> an event reaches, which
  \<^verbatim>\<open>CommandPlugin.on_event\<close> (not among the sources) decides. They are among the
  plugins that \<^verbatim>\<open>process_event\<close> selects for a message event.
\<close>

definition command_targets :: "settings \<Rightarrow> pydict \<Rightarrow> plugin list \<Rightarrow> plugin list" where
  "command_targets cfg event ps =
     (if event ''type'' = Some (PStr ''message'')
      then (case event_token cfg event of
              None \<Rightarrow> []
            | Some t \<Rightarrow>
                filter (\<lambda>p. case command p of None \<Rightarrow> False | Some c \<Rightarrow> trigger_in t (triggers c))
                  (filter (\<lambda>p. event_type p = ''message'') ps))
      else [])"

subsection \<open>\<^verbatim>\<open>plugins/uptime.py\<close>\<close>

text \<open>
  The class \<^verbatim>\<open>Uptime\<close>. Its initializer is \<^verbatim>\<open>def __init__(self)\<close>: it takes no
  argument besides the instance, so a call with any argument raises \<^verbatim>\<open>TypeError\<close>
  before the body runs. With no argument it runs \<^verbatim>\<open>CommandPlugin.__init__(self)\<close>,
  whose result is the parameter \<open>base\<close>, and sets the command attributes.
\<close>

definition Uptime :: "plugin \<Rightarrow> klass" where
  "Uptime base =
     \<lparr>k_name = ''Uptime'',
      k_init = (\<lambda>args. case args of
                  [] \<Rightarrow> Inr (base\<lparr>cls_name := ''Uptime'',
                                  command := Some \<lparr>triggers = [''uptime''],
                                                   short_help = ''Prints out the uptime of the bot'',
                                                   help_text = ''Prints out the uptime of the bot'',
                                                   help_example = [''!uptime'']\<rparr>\<rparr>)
                | _ \<Rightarrow> Inl TypeError)\<rparr>"

subsection \<open>Notions the properties are stated and proved with\<close>

text \<open>The invocations submitted between a state and a later one.\<close>

definition new_jobs :: "state \<Rightarrow> state \<Rightarrow> invocation list" where
  "new_jobs st st' = drop (length (submitted st)) (submitted st')"

text \<open>
  The dispatch decisions made between two states: for every new invocation, the contents
  of the event it was given and the plugin.
\<close>

definition decisions :: "state \<Rightarrow> state \<Rightarrow> (pydict \<times> plugin) list" where
  "decisions st st' = map (\<lambda>job. (cells st' (inv_event job), inv_plugin job)) (new_jobs st st')"

text \<open>An event passes the two filters of \<^verbatim>\<open>run\<close>.\<close>

definition survives :: "pydict \<Rightarrow> bool" where
  "survives event =
     (dict_get event ''subtype'' \<noteq> PStr ''bot_message'' \<and> \<not> truthy (dict_get event ''hidden''))"

text \<open>The plugins whose \<^verbatim>\<open>event_type\<close> equals the \<^verbatim>\<open>type\<close> of the event.\<close>

definition matching :: "pydict \<Rightarrow> plugin list \<Rightarrow> plugin list" where
  "matching event ps = filter (\<lambda>p. event ''type'' = Some (PStr (event_type p))) ps"

text \<open>
  What a run over a sequence of events is expected to decide, and whether it is expected to
  end in a \<^verbatim>\<open>KeyError\<close>: stated without the store, to compare \<^verbatim>\<open>run\<close> with.
\<close>

fun expected :: "plugin list \<Rightarrow> pydict list \<Rightarrow> (pydict \<times> plugin) list \<times> bool" where
  "expected ps [] = ([], False)"
| "expected ps (event # events) =
     (if \<not> survives event then expected ps events
      else if event ''type'' = None \<and> ps \<noteq> [] then ([], True)
      else (map (Pair event) (matching event ps) @ fst (expected ps events), snd (expected ps events)))"

text \<open>The classes of a directory listing that \<^verbatim>\<open>load_plugins\<close> gets to register.\<close>

fun discovered :: "(string \<times> (exc + klass list)) list \<Rightarrow> klass list" where
  "discovered [] = []"
| "discovered ((f, imported) # fs) =
     (if snd (splitext f) = ''.py''
      then (case imported of Inl e \<Rightarrow> [] | Inr classes \<Rightarrow> classes @ discovered fs)
      else discovered fs)"

text \<open>The instances that the classes of a list construct when called with the bot.\<close>

definition constructed :: "settings \<Rightarrow> klass list \<Rightarrow> plugin list" where
  "constructed cfg ks = concat (map (\<lambda>k. case k_init k [cfg] of Inl e \<Rightarrow> [] | Inr p \<Rightarrow> [p]) ks)"

text \<open>The invocations that \<^verbatim>\<open>submit_all\<close> adds when the next unused address is \<open>n\<close>.\<close>

fun fresh_jobs :: "addr \<Rightarrow> plugin list \<Rightarrow> invocation list" where
  "fresh_jobs n [] = []"
| "fresh_jobs n (p # ps) =
     \<lparr>inv_plugin = p, inv_event = Suc n, inv_response = n\<rparr> # fresh_jobs (Suc (Suc n)) ps"

text \<open>
  A later state of the same engine: the plugins are the same, the objects that existed are
  untouched, and the invocations added since then made the decisions \<open>prs\<close>, on objects
  that exist.
\<close>

definition grows :: "state \<Rightarrow> state \<Rightarrow> (pydict \<times> plugin) list \<Rightarrow> bool" where
  "grows st st' prs =
     (plugins st' = plugins st \<and> next_addr st \<le> next_addr st' \<and>
      (\<forall>b. b < next_addr st \<longrightarrow> cells st' b = cells st b) \<and>
      (\<exists>new. submitted st' = submitted st @ new \<and>
             (\<forall>job. job \<in> set new \<longrightarrow> inv_event job < next_addr st') \<and>
             map (\<lambda>job. (cells st' (inv_event job), inv_plugin job)) new = prs))"

subsection \<open>Example data\<close>

text \<open>The defaults of \<^verbatim>\<open>__init__\<close>, and an engine that has loaded nothing.\<close>

definition cfg0 :: settings where
  "cfg0 = \<lparr>username = ''nimbus'', icon_emoji = '':cloud:'', command_prefix = ''!'',
           debug_mode = False, plugin_directory = ''plugins''\<rparr>"

definition st0 :: state where
  "st0 = \<lparr>plugins = [], cells = (\<lambda>a. Map.empty), next_addr = 0, submitted = [], posted = [],
          logged = []\<rparr>"

text \<open>A plugin that returns at once, leaving its arguments as they are.\<close>

definition quiet :: "(addr \<Rightarrow> pydict) \<Rightarrow> addr \<Rightarrow> addr \<Rightarrow> effect" where
  "quiet store event response = \<lparr>store_after = store, sends = [], raised = None\<rparr>"

definition echo_plugin :: plugin where
  "echo_plugin = \<lparr>cls_name = ''Echo'', event_type = ''message'', command = None, on_event = quiet\<rparr>"

definition reaction_plugin :: plugin where
  "reaction_plugin =
     \<lparr>cls_name = ''Reaction'', event_type = ''reaction_added'', command = None, on_event = quiet\<rparr>"

text \<open>A plugin that raises a \<^verbatim>\<open>PluginException\<close> without touching its arguments.\<close>

definition failing_plugin :: plugin where
  "failing_plugin =
     \<lparr>cls_name = ''Failing'', event_type = ''message'', command = None,
      on_event = (\<lambda>store event response.
        \<lparr>store_after = store, sends = [], raised = Some (PluginException (PStr ''boom'') True)\<rparr>)\<rparr>"

text \<open>
  A plugin that does \<^verbatim>\<open>response['channel'] = 'C2'\<close> and then raises a
  \<^verbatim>\<open>PluginException\<close>.
\<close>

definition rerouting_plugin :: plugin where
  "rerouting_plugin =
     \<lparr>cls_name = ''Rerouting'', event_type = ''message'', command = None,
      on_event = (\<lambda>store event response.
        \<lparr>store_after = store(response := (store response)(''channel'' \<mapsto> PStr ''C2'')), sends = [],
         raised = Some (PluginException (PStr ''boom'') True)\<rparr>)\<rparr>"

text \<open>
  A plugin that does \<^verbatim>\<open>response['method'] = 'chat.update'\<close> and then raises a
  \<^verbatim>\<open>PluginException\<close>.
\<close>

definition method_plugin :: plugin where
  "method_plugin =
     \<lparr>cls_name = ''Method'', event_type = ''message'', command = None,
      on_event = (\<lambda>store event response.
        \<lparr>store_after = store(response := (store response)(''method'' \<mapsto> PStr ''chat.update'')), sends = [],
         raised = Some (PluginException (PStr ''boom'') True)\<rparr>)\<rparr>"

text \<open>An instance of \<^verbatim>\<open>Uptime\<close> as its initializer leaves it when called with no argument.\<close>

definition command_base :: plugin where
  "command_base = \<lparr>cls_name = ''CommandPlugin'', event_type = ''message'',
                   command = Some \<lparr>triggers = [], short_help = [], help_text = [], help_example = []\<rparr>,
                   on_event = quiet\<rparr>"

definition uptime_plugin :: plugin where
  "uptime_plugin = command_base\<lparr>cls_name := ''Uptime'',
                     command := Some \<lparr>triggers = [''uptime''],
                                      short_help = ''Prints out the uptime of the bot'',
                                      help_text = ''Prints out the uptime of the bot'',
                                      help_example = [''!uptime'']\<rparr>\<rparr>"

text \<open>A class whose initializer takes the bot and returns \<open>echo_plugin\<close>, and one that raises.\<close>

definition Echo :: klass where
  "Echo = \<lparr>k_name = ''Echo'', k_init = (\<lambda>args. case args of [nimbus] \<Rightarrow> Inr echo_plugin | _ \<Rightarrow> Inl TypeError)\<rparr>"

definition Broken :: klass where
  "Broken = \<lparr>k_name = ''Broken'', k_init = (\<lambda>args. Inl (OtherException ''RuntimeError'' True))\<rparr>"

text \<open>
  A stand-in for \<^verbatim>\<open>json.dumps\<close> in the examples: it only tells how many
  attachments it was given. And a client whose calls all return.
\<close>

definition dumps0 :: "pyval \<Rightarrow> exc + string" where
  "dumps0 v = (case v of PList vs \<Rightarrow> Inr (''['' @ replicate (length vs) CHR ''*'' @ '']'') | _ \<Rightarrow> Inr ''?'')"

definition client0 :: "string \<Rightarrow> pydict \<Rightarrow> exc option" where
  "client0 method kwargs = None"

text \<open>
  An engine with three plugins, two of them for messages, and one event object at
  address 0.
\<close>

definition engine :: "pydict \<Rightarrow> state" where
  "engine event =
     \<lparr>plugins = [echo_plugin, reaction_plugin, failing_plugin],
      cells = (\<lambda>a. Map.empty)(0 := event), next_addr = 1, submitted = [], posted = [], logged = []\<rparr>"

text \<open>A message in channel \<^verbatim>\<open>C1\<close>, and the same message as a bot sends it.\<close>

definition msg_event :: pydict where
  "msg_event = [''type'' \<mapsto> PStr ''message'', ''channel'' \<mapsto> PStr ''C1'', ''text'' \<mapsto> PStr ''!uptime'']"

definition bot_event :: pydict where
  "bot_event = msg_event(''subtype'' \<mapsto> PStr ''bot_message'')"

text \<open>The example message in an engine whose only plugin is \<open>rerouting_plugin\<close>.\<close>

definition rerouting_engine :: state where
  "rerouting_engine = (engine msg_event)\<lparr>plugins := [rerouting_plugin]\<rparr>"

text \<open>The example message in an engine whose only plugin is \<open>method_plugin\<close>.\<close>

definition method_engine :: state where
  "method_engine = (engine msg_event)\<lparr>plugins := [method_plugin]\<rparr>"

text \<open>A plugin directory with two modules and a file that is not one.\<close>

definition listing0 :: "(string \<times> (exc + klass list)) list" where
  "listing0 = [(''echo.py'', Inr [Echo]), (''README.md'', Inr []), (''broken.py'', Inr [Broken, Echo])]"

section \<open>Facts about dispatch\<close>

text \<open>
  What \<^verbatim>\<open>filter\<close> returns, and what the loop of \<^verbatim>\<open>process_event\<close> does to
  each part of the state: it only adds objects and invocations.
\<close>

lemma filter_event_type_eq:
  "filter_event_type event ps =
     (if ps \<noteq> [] \<and> event ''type'' = None then Inl (KeyError (PStr ''type''))
      else Inr (matching event ps))"
  by (induction ps) (auto simp: matching_def split: option.splits)

lemma alloc_fst [simp]: "fst (alloc d st) = next_addr st"
  by (simp add: alloc_def)

lemma alloc_snd_fields [simp]:
  "plugins (snd (alloc d st)) = plugins st"
  "submitted (snd (alloc d st)) = submitted st"
  "posted (snd (alloc d st)) = posted st"
  "logged (snd (alloc d st)) = logged st"
  "next_addr (snd (alloc d st)) = Suc (next_addr st)"
  "cells (snd (alloc d st)) = (cells st)(next_addr st := d)"
  by (simp_all add: alloc_def)

lemma submit_all_frame:
  "plugins (submit_all cfg a ps st) = plugins st \<and>
   posted (submit_all cfg a ps st) = posted st \<and>
   logged (submit_all cfg a ps st) = logged st \<and>
   next_addr (submit_all cfg a ps st) = next_addr st + 2 * length ps \<and>
   submitted (submit_all cfg a ps st) = submitted st @ fresh_jobs (next_addr st) ps"
  by (induction ps arbitrary: st) (simp_all add: split_def Let_def)

lemma submit_all_cells:
  "a < next_addr st \<Longrightarrow>
   cells (submit_all cfg a ps st) b =
     (if b < next_addr st \<or> next_addr st + 2 * length ps \<le> b then cells st b
      else if even (b - next_addr st) then new_response cfg (cells st a)
      else cells st a)"
proof (induction ps arbitrary: st)
  case Nil
  then show ?case by auto
next
  case (Cons p ps)
  define n where "n = next_addr st"
  define st3 where
    "st3 = st\<lparr>cells := (cells st)(n := new_response cfg (cells st a), Suc n := cells st a),
              next_addr := Suc (Suc n),
              submitted := submitted st @ [\<lparr>inv_plugin = p, inv_event = Suc n, inv_response = n\<rparr>]\<rparr>"
  have an: "a < n" using Cons.prems by (simp add: n_def)
  have step: "submit_all cfg a (p # ps) st = submit_all cfg a ps st3"
    using an by (simp add: alloc_def Let_def st3_def n_def)
  have n3: "next_addr st3 = Suc (Suc n)" by (simp add: st3_def)
  have c3: "cells st3 = (cells st)(n := new_response cfg (cells st a), Suc n := cells st a)"
    by (simp add: st3_def)
  have ca: "cells st3 a = cells st a" using an by (simp add: c3)
  have a3: "a < next_addr st3" using an by (simp add: n3)
  have ih: "cells (submit_all cfg a ps st3) b =
     (if b < Suc (Suc n) \<or> Suc (Suc n) + 2 * length ps \<le> b then cells st3 b
      else if even (b - Suc (Suc n)) then new_response cfg (cells st a)
      else cells st a)"
    using Cons.IH [OF a3] by (simp add: n3 ca)
  consider "b < n" | "b = n" | "b = Suc n" | "Suc (Suc n) \<le> b" by linarith
  then have "cells (submit_all cfg a ps st3) b =
     (if b < n \<or> n + 2 * length (p # ps) \<le> b then cells st b
      else if even (b - n) then new_response cfg (cells st a)
      else cells st a)"
  proof cases
    case 1
    then show ?thesis unfolding ih c3 by simp
  next
    case 2
    then show ?thesis unfolding ih c3 by simp
  next
    case 3
    then show ?thesis unfolding ih c3 by simp
  next
    case 4
    then obtain k where k: "b = Suc (Suc n) + k" using le_Suc_ex by blast
    show ?thesis using ih unfolding k c3 by simp
  qed
  then show ?case unfolding step n_def .
qed

lemma fresh_jobs_plugins: "map inv_plugin (fresh_jobs n ps) = ps"
  by (induction ps arbitrary: n) simp_all

lemma fresh_jobs_addr:
  "job \<in> set (fresh_jobs n ps) \<Longrightarrow>
     \<exists>i<length ps. inv_response job = n + 2 * i \<and> inv_event job = Suc (n + 2 * i)"
proof (induction ps arbitrary: n)
  case Nil
  then show ?case by simp
next
  case (Cons p ps)
  show ?case
  proof (cases "job = \<lparr>inv_plugin = p, inv_event = Suc n, inv_response = n\<rparr>")
    case True
    then show ?thesis by auto
  next
    case False
    with Cons.prems have "job \<in> set (fresh_jobs (Suc (Suc n)) ps)" by simp
    from Cons.IH [OF this] obtain i where "i < length ps"
      "inv_response job = Suc (Suc n) + 2 * i" "inv_event job = Suc (Suc (Suc n) + 2 * i)" by blast
    then have "Suc i < length (p # ps) \<and> inv_response job = n + 2 * Suc i \<and> inv_event job = Suc (n + 2 * Suc i)"
      by simp
    then show ?thesis by blast
  qed
qed

lemma fresh_jobs_lower:
  "job \<in> set (fresh_jobs n ps) \<Longrightarrow> n \<le> inv_response job \<and> n < inv_event job"
  by (drule fresh_jobs_addr) auto

lemma fresh_jobs_distinct:
  "distinct (map inv_response (fresh_jobs n ps) @ map inv_event (fresh_jobs n ps))"
proof (induction ps arbitrary: n)
  case Nil
  then show ?case by simp
next
  case (Cons p ps)
  let ?js = "fresh_jobs (Suc (Suc n)) ps"
  have r: "\<And>m. m \<le> Suc n \<Longrightarrow> m \<notin> inv_response ` set ?js"
    using fresh_jobs_lower [of _ "Suc (Suc n)" ps] by fastforce
  have e: "\<And>m. m \<le> Suc n \<Longrightarrow> m \<notin> inv_event ` set ?js"
    using fresh_jobs_lower [of _ "Suc (Suc n)" ps] by fastforce
  show ?case using Cons.IH [of "Suc (Suc n)"] r [of n] r [of "Suc n"] e [of n] e [of "Suc n"]
    by simp
qed

lemma debug_log_fields [simp]:
  "plugins (debug_log cfg a st) = plugins st"
  "cells (debug_log cfg a st) = cells st"
  "next_addr (debug_log cfg a st) = next_addr st"
  "submitted (debug_log cfg a st) = submitted st"
  "posted (debug_log cfg a st) = posted st"
  by (simp_all add: debug_log_def log_append_def)

lemma process_event_cases:
  "process_event cfg a st =
     (if plugins st \<noteq> [] \<and> cells st a ''type'' = None
      then Raised (KeyError (PStr ''type'')) (debug_log cfg a st)
      else Returned (submit_all cfg a (matching (cells st a) (plugins st)) (debug_log cfg a st)))"
  by (simp add: process_event_def Let_def filter_event_type_eq)

lemma matching_no_type: "event ''type'' = None \<Longrightarrow> matching event ps = []"
  by (simp add: matching_def)

lemma process_event_submitted:
  "submitted (outcome_state (process_event cfg a st)) =
     submitted st @ fresh_jobs (next_addr st) (matching (cells st a) (plugins st))"
  by (simp add: process_event_cases submit_all_frame matching_no_type)

lemma new_jobs_append: "submitted st' = submitted st @ js \<Longrightarrow> new_jobs st st' = js"
  by (simp add: new_jobs_def)

lemma process_event_new_jobs:
  "new_jobs st (outcome_state (process_event cfg a st)) =
     fresh_jobs (next_addr st) (matching (cells st a) (plugins st))"
  by (rule new_jobs_append) (rule process_event_submitted)

lemma process_event_cells:
  "a < next_addr st \<Longrightarrow>
   cells (outcome_state (process_event cfg a st)) b =
     (if b < next_addr st \<or> next_addr st + 2 * length (matching (cells st a) (plugins st)) \<le> b
      then cells st b
      else if even (b - next_addr st) then new_response cfg (cells st a)
      else cells st a)"
  by (auto simp: process_event_cases submit_all_cells matching_no_type)

lemma grows_decisions: "grows st st' prs \<Longrightarrow> decisions st st' = prs"
  by (auto simp: grows_def decisions_def new_jobs_def)

lemma grows_refl: "grows st st []"
  by (simp add: grows_def)

lemma grows_trans:
  assumes "grows st st' p1" and "grows st' st'' p2"
  shows "grows st st'' (p1 @ p2)"
proof -
  from assms(1) obtain n1 where n1: "submitted st' = submitted st @ n1"
    "\<And>job. job \<in> set n1 \<Longrightarrow> inv_event job < next_addr st'"
    "map (\<lambda>job. (cells st' (inv_event job), inv_plugin job)) n1 = p1"
    unfolding grows_def by blast
  from assms(2) obtain n2 where n2: "submitted st'' = submitted st' @ n2"
    "\<And>job. job \<in> set n2 \<Longrightarrow> inv_event job < next_addr st''"
    "map (\<lambda>job. (cells st'' (inv_event job), inv_plugin job)) n2 = p2"
    unfolding grows_def by blast
  have le: "next_addr st \<le> next_addr st'" "next_addr st' \<le> next_addr st''"
    using assms unfolding grows_def by blast+
  have keep1: "\<And>b. b < next_addr st \<Longrightarrow> cells st' b = cells st b"
    using assms(1) unfolding grows_def by blast
  have keep2: "\<And>b. b < next_addr st' \<Longrightarrow> cells st'' b = cells st' b"
    using assms(2) unfolding grows_def by blast
  have pl: "plugins st'' = plugins st"
    using assms unfolding grows_def by simp
  have m1: "map (\<lambda>job. (cells st'' (inv_event job), inv_plugin job)) n1 = p1"
    using n1(2) n1(3) keep2 by (auto cong: map_cong)
  have sub: "submitted st'' = submitted st @ (n1 @ n2)"
    using n1(1) n2(1) by simp
  have bound: "\<And>job. job \<in> set (n1 @ n2) \<Longrightarrow> inv_event job < next_addr st''"
    using n1(2) n2(2) le by fastforce
  have keep: "\<And>b. b < next_addr st \<Longrightarrow> cells st'' b = cells st b"
    using keep1 keep2 le by fastforce
  have mm: "map (\<lambda>job. (cells st'' (inv_event job), inv_plugin job)) (n1 @ n2) = p1 @ p2"
    using m1 n2(3) by simp
  show ?thesis
    unfolding grows_def using pl le keep sub bound mm by (meson le_trans)
qed

lemma grows_alloc: "grows st (snd (alloc d st)) []"
  by (simp add: grows_def)

lemma grows_debug_log: "grows st (debug_log cfg a st) []"
  by (simp add: grows_def)

lemma grows_log_append: "grows st (log_append l st) []"
  by (simp add: grows_def log_append_def)

lemma grows_submit_all:
  assumes "a < next_addr st"
  shows "grows st (submit_all cfg a ps st) (map (Pair (cells st a)) ps)"
proof -
  let ?st' = "submit_all cfg a ps st"
  let ?new = "fresh_jobs (next_addr st) ps"
  have bound: "\<And>job. job \<in> set ?new \<Longrightarrow> inv_event job < next_addr ?st'"
    by (drule fresh_jobs_addr) (auto simp: submit_all_frame)
  have copy: "\<And>job. job \<in> set ?new \<Longrightarrow> cells ?st' (inv_event job) = cells st a"
    by (drule fresh_jobs_addr) (auto simp: submit_all_cells [OF assms])
  have "map (\<lambda>job. (cells ?st' (inv_event job), inv_plugin job)) ?new =
        map (\<lambda>job. (cells st a, inv_plugin job)) ?new"
    using copy by simp
  also have "\<dots> = map (Pair (cells st a)) (map inv_plugin ?new)"
    by (simp add: comp_def)
  finally have mm: "map (\<lambda>job. (cells ?st' (inv_event job), inv_plugin job)) ?new =
                    map (Pair (cells st a)) ps"
    by (simp add: fresh_jobs_plugins)
  have keep: "\<And>b. b < next_addr st \<Longrightarrow> cells ?st' b = cells st b"
    by (simp add: submit_all_cells [OF assms])
  show ?thesis
    unfolding grows_def using bound mm keep by (simp add: submit_all_frame)
qed

lemma grows_process_event:
  assumes "a < next_addr st"
  shows "grows st (outcome_state (process_event cfg a st))
           (map (Pair (cells st a)) (matching (cells st a) (plugins st)))"
proof (cases "plugins st \<noteq> [] \<and> cells st a ''type'' = None")
  case True
  then show ?thesis
    using grows_debug_log [of st cfg a] by (simp add: process_event_cases matching_no_type)
next
  case False
  have a': "a < next_addr (debug_log cfg a st)" using assms by simp
  have "grows st (submit_all cfg a (matching (cells st a) (plugins st)) (debug_log cfg a st))
          ([] @ map (Pair (cells (debug_log cfg a st) a)) (matching (cells st a) (plugins st)))"
    by (rule grows_trans [OF grows_debug_log grows_submit_all [OF a']])
  moreover have "process_event cfg a st =
      Returned (submit_all cfg a (matching (cells st a) (plugins st)) (debug_log cfg a st))"
    unfolding process_event_cases using False by (rule if_not_P)
  ultimately show ?thesis by simp
qed

lemma process_event_exc:
  "outcome_exc (process_event cfg a st) =
     (if plugins st \<noteq> [] \<and> cells st a ''type'' = None then Some (KeyError (PStr ''type'')) else None)"
  by (simp add: process_event_cases)

lemma handle_event_cases:
  "handle_event cfg a st = (if survives (cells st a) then process_event cfg a st else Returned st)"
  by (auto simp: handle_event_def survives_def Let_def)

lemma expected_single:
  "expected ps [event] =
     (if survives event
      then (if event ''type'' = None \<and> ps \<noteq> [] then ([], True)
            else (map (Pair event) (matching event ps), False))
      else ([], False))"
  by simp

lemma expected_Cons:
  "expected ps (event # events) =
     (if snd (expected ps [event]) then ([], True)
      else (fst (expected ps [event]) @ fst (expected ps events), snd (expected ps events)))"
  by simp

lemma expected_append:
  "expected ps (xs @ ys) =
     (if snd (expected ps xs) then expected ps xs
      else (fst (expected ps xs) @ fst (expected ps ys), snd (expected ps ys)))"
  by (induction xs) (auto simp: matching_no_type)

lemma grows_handle_event:
  assumes "a < next_addr st"
  shows "grows st (outcome_state (handle_event cfg a st)) (fst (expected (plugins st) [cells st a]))"
    and "outcome_exc (handle_event cfg a st) =
           (if snd (expected (plugins st) [cells st a]) then Some (KeyError (PStr ''type'')) else None)"
proof -
  show "grows st (outcome_state (handle_event cfg a st)) (fst (expected (plugins st) [cells st a]))"
    using grows_process_event [OF assms, of cfg] grows_refl [of st]
    by (auto simp: handle_event_cases matching_no_type)
  show "outcome_exc (handle_event cfg a st) =
           (if snd (expected (plugins st) [cells st a]) then Some (KeyError (PStr ''type'')) else None)"
    by (auto simp: handle_event_cases process_event_exc)
qed

lemma grows_next: "grows st st' prs \<Longrightarrow> next_addr st \<le> next_addr st'"
  by (simp add: grows_def)

lemma grows_cells: "grows st st' prs \<Longrightarrow> b < next_addr st \<Longrightarrow> cells st' b = cells st b"
  by (simp add: grows_def)

lemma grows_plugins: "grows st st' prs \<Longrightarrow> plugins st' = plugins st"
  by (simp add: grows_def)

lemma grows_handle_events:
  "\<forall>a\<in>set as. a < next_addr st \<Longrightarrow>
     grows st (outcome_state (handle_events cfg as st)) (fst (expected (plugins st) (map (cells st) as))) \<and>
     outcome_exc (handle_events cfg as st) =
       (if snd (expected (plugins st) (map (cells st) as)) then Some (KeyError (PStr ''type'')) else None)"
proof (induction as arbitrary: st)
  case Nil
  then show ?case by (simp add: grows_refl)
next
  case (Cons a as)
  have a: "a < next_addr st" using Cons.prems by simp
  note g1 = grows_handle_event(1) [OF a, of cfg]
  note e1 = grows_handle_event(2) [OF a, of cfg]
  show ?case
  proof (cases "handle_event cfg a st")
    case (Raised e st1)
    with e1 have crash: "snd (expected (plugins st) [cells st a])"
      by (auto split: if_splits)
    from e1 Raised have e: "e = KeyError (PStr ''type'')" by (auto split: if_splits)
    have ex: "expected (plugins st) (map (cells st) (a # as)) = ([], True)"
      using crash by (subst list.map(2), subst expected_Cons) simp
    have "fst (expected (plugins st) [cells st a]) = []"
      using crash by (auto simp: expected_single split: if_splits)
    with g1 Raised have "grows st st1 []" by simp
    then show ?thesis using Raised ex e by simp
  next
    case (Returned st1)
    with e1 have nocrash: "\<not> snd (expected (plugins st) [cells st a])"
      by (auto split: if_splits)
    from g1 Returned have g: "grows st st1 (fst (expected (plugins st) [cells st a]))" by simp
    have as1: "\<forall>a\<in>set as. a < next_addr st1"
      using Cons.prems grows_next [OF g] by fastforce
    have same: "map (cells st1) as = map (cells st) as"
      using Cons.prems grows_cells [OF g] by simp
    note ih = Cons.IH [OF as1, unfolded same grows_plugins [OF g]]
    have ex: "expected (plugins st) (map (cells st) (a # as)) =
                (fst (expected (plugins st) [cells st a]) @ fst (expected (plugins st) (map (cells st) as)),
                 snd (expected (plugins st) (map (cells st) as)))"
      using nocrash by (subst list.map(2), subst expected_Cons) simp
    have "grows st (outcome_state (handle_events cfg as st1))
            (fst (expected (plugins st) [cells st a]) @ fst (expected (plugins st) (map (cells st) as)))"
      using grows_trans [OF g] ih by blast
    then show ?thesis using Returned ex ih by simp
  qed
qed

lemma grows_rtm_read:
  "grows st (snd (rtm_read batch st)) [] \<and>
   map (cells (snd (rtm_read batch st))) (fst (rtm_read batch st)) = batch \<and>
   (\<forall>a\<in>set (fst (rtm_read batch st)). a < next_addr (snd (rtm_read batch st)))"
proof (induction batch arbitrary: st)
  case Nil
  then show ?case by (simp add: grows_refl)
next
  case (Cons d ds)
  let ?st1 = "snd (alloc d st)"
  let ?st2 = "snd (rtm_read ds ?st1)"
  have eq: "rtm_read (d # ds) st = (next_addr st # fst (rtm_read ds ?st1), ?st2)"
    by (simp add: split_def Let_def)
  note ih = Cons.IH [of ?st1]
  have g: "grows st ?st2 []"
    using grows_trans [OF grows_alloc [of st d]] ih by fastforce
  have c: "cells ?st2 (next_addr st) = d"
    using grows_cells [of ?st1 ?st2 "[]" "next_addr st"] ih by simp
  have n: "next_addr st < next_addr ?st2"
    using grows_next [of ?st1 ?st2 "[]"] ih by simp
  show ?case unfolding eq using g c n ih by simp
qed

lemma grows_run_loop:
  "grows st (run_state (run_loop cfg polls st)) (fst (expected (plugins st) (concat polls))) \<and>
   crash_of (run_loop cfg polls st) =
     (if snd (expected (plugins st) (concat polls)) then Some (KeyError (PStr ''type'')) else None)"
proof (induction polls arbitrary: st)
  case Nil
  then show ?case by (simp add: grows_refl)
next
  case (Cons batch polls)
  let ?events = "fst (rtm_read batch st)"
  let ?st1 = "snd (rtm_read batch st)"
  note r = grows_rtm_read [of st batch]
  from r have g0: "grows st ?st1 []" and b: "map (cells ?st1) ?events = batch"
    and lt: "\<forall>a\<in>set ?events. a < next_addr ?st1" by blast+
  note h = grows_handle_events [OF lt, of cfg, unfolded b grows_plugins [OF g0]]
  from h have g1: "grows ?st1 (outcome_state (handle_events cfg ?events ?st1)) (fst (expected (plugins st) batch))"
    by blast
  have g01: "grows st (outcome_state (handle_events cfg ?events ?st1)) (fst (expected (plugins st) batch))"
    using grows_trans [OF g0 g1] by simp
  show ?case
  proof (cases "handle_events cfg ?events ?st1")
    case (Raised e st2)
    with h have crash: "snd (expected (plugins st) batch)" and e: "e = KeyError (PStr ''type'')"
      by (auto split: if_splits)
    have "run_loop cfg (batch # polls) st = Crashed e st2"
      using Raised by (simp add: split_def)
    moreover have "expected (plugins st) (concat (batch # polls)) = expected (plugins st) batch"
      using crash by (simp add: expected_append)
    ultimately show ?thesis using g01 Raised crash e by simp
  next
    case (Returned st2)
    with h have nocrash: "\<not> snd (expected (plugins st) batch)"
      by (auto split: if_splits)
    have rl: "run_loop cfg (batch # polls) st = run_loop cfg polls st2"
      using Returned by (simp add: split_def)
    from g01 Returned have g: "grows st st2 (fst (expected (plugins st) batch))" by simp
    note ih = Cons.IH [of st2, unfolded grows_plugins [OF g]]
    have ex: "expected (plugins st) (concat (batch # polls)) =
       (fst (expected (plugins st) batch) @ fst (expected (plugins st) (concat polls)),
        snd (expected (plugins st) (concat polls)))"
      using nocrash by (simp add: expected_append)
    have "grows st (run_state (run_loop cfg polls st2))
            (fst (expected (plugins st) batch) @ fst (expected (plugins st) (concat polls)))"
      using grows_trans [OF g] ih by blast
    then show ?thesis unfolding rl ex using ih by simp
  qed
qed

lemma run_decisions:
  "decisions st (run_state (run cfg polls st)) = fst (expected (plugins st) (concat polls))"
proof -
  let ?st0 = "log_append (Info ''Starting bot loop...'') st"
  have g0: "grows st ?st0 []" by (rule grows_log_append)
  have "grows ?st0 (run_state (run_loop cfg polls ?st0)) (fst (expected (plugins st) (concat polls)))"
    using grows_run_loop [of ?st0 cfg polls] by (simp add: grows_plugins [OF g0])
  from grows_trans [OF g0 this] show ?thesis
    by (simp add: run_def grows_decisions)
qed

lemma run_crash:
  "crash_of (run cfg polls st) =
     (if snd (expected (plugins st) (concat polls)) then Some (KeyError (PStr ''type'')) else None)"
  using grows_run_loop [of "log_append (Info ''Starting bot loop...'') st" cfg polls]
  by (simp add: run_def log_append_def)

lemma expected_survivors: "expected ps (filter survives events) = expected ps events"
proof (induction events)
  case Nil
  then show ?case by simp
next
  case (Cons event events)
  then show ?case by (cases "survives event") auto
qed

lemma expected_crash_iff:
  "snd (expected ps events) \<longleftrightarrow> ps \<noteq> [] \<and> (\<exists>event\<in>set events. survives event \<and> event ''type'' = None)"
  by (induction events) auto

section \<open>Filtering and dispatch\<close>

text \<open>The entries of a response draft as \<^verbatim>\<open>process_event\<close> seeds it.\<close>

lemma new_response_entries:
  "dom (new_response cfg event) = {''username'', ''icon_emoji''} \<union> ({''channel''} \<inter> dom event)"
  "new_response cfg event ''username'' = Some (PStr (username cfg))"
  "new_response cfg event ''icon_emoji'' = Some (PStr (icon_emoji cfg))"
  "new_response cfg event ''channel'' = event ''channel''"
  by (cases "event ''channel''"; auto simp: new_response_def Let_def split: if_splits)+

text \<open>
  C3. Processing an event submits one invocation for every plugin of the collection whose
  \<^verbatim>\<open>event_type\<close> equals the \<^verbatim>\<open>type\<close> of the event, in the order of the
  collection, and none for any other plugin: the plugins of the new invocations are the
  matching plugins, as lists, so the number of invocations is the number of matching
  plugins. (When the event has no \<^verbatim>\<open>type\<close> no plugin matches and nothing is
  submitted.)
\<close>

theorem process_event_invokes_matching:
  "submitted (outcome_state (process_event cfg a st)) =
     submitted st @ new_jobs st (outcome_state (process_event cfg a st)) \<and>
   map inv_plugin (new_jobs st (outcome_state (process_event cfg a st))) =
     filter (\<lambda>p. cells st a ''type'' = Some (PStr (event_type p))) (plugins st) \<and>
   length (new_jobs st (outcome_state (process_event cfg a st))) =
     length (filter (\<lambda>p. cells st a ''type'' = Some (PStr (event_type p))) (plugins st)) \<and>
   (\<forall>job\<in>set (new_jobs st (outcome_state (process_event cfg a st))).
      cells st a ''type'' = Some (PStr (event_type (inv_plugin job))))"
proof -
  let ?new = "new_jobs st (outcome_state (process_event cfg a st))"
  let ?sel = "filter (\<lambda>p. cells st a ''type'' = Some (PStr (event_type p))) (plugins st)"
  have new: "?new = fresh_jobs (next_addr st) (matching (cells st a) (plugins st))"
    by (rule process_event_new_jobs)
  have sub: "submitted (outcome_state (process_event cfg a st)) = submitted st @ ?new"
    unfolding new by (rule process_event_submitted)
  have pl: "map inv_plugin ?new = ?sel"
    unfolding new by (simp add: fresh_jobs_plugins matching_def)
  have len: "length ?new = length ?sel"
    using pl by (metis length_map)
  have each: "\<forall>job\<in>set ?new. cells st a ''type'' = Some (PStr (event_type (inv_plugin job)))"
  proof
    fix job assume "job \<in> set ?new"
    then have "inv_plugin job \<in> set (map inv_plugin ?new)" by simp
    then show "cells st a ''type'' = Some (PStr (event_type (inv_plugin job)))"
      unfolding pl by simp
  qed
  from sub pl len each show ?thesis by blast
qed

text \<open>A message event with three plugins loaded, two of them for messages.\<close>

theorem process_event_invokes_matching_witness:
  "map inv_plugin (new_jobs (engine msg_event) (outcome_state (process_event cfg0 0 (engine msg_event)))) =
     [echo_plugin, failing_plugin] \<and>
   length (new_jobs (engine msg_event) (outcome_state (process_event cfg0 0 (engine msg_event)))) = 2"
  using process_event_invokes_matching [of cfg0 0 "engine msg_event"]
  by (simp add: engine_def msg_event_def echo_plugin_def reaction_plugin_def failing_plugin_def)

text \<open>
  C8. Every invocation that \<^verbatim>\<open>process_event\<close> submits for an event object \<open>a\<close>
  gets a response dictionary and an event dictionary that were created during this call:
  their addresses are not in use before, all of them differ from each other (no draft and
  no event copy is shared between two invocations, and no copy is the original event
  object), the draft holds exactly \<^verbatim>\<open>username\<close> and \<^verbatim>\<open>icon_emoji\<close> of the bot,
  and \<^verbatim>\<open>channel\<close> if and only if the event has one, with the event's value; the event
  dictionary has the contents of the original. No object that existed is changed.
\<close>

theorem process_event_fresh_objects:
  assumes "a < next_addr st"
    and "st' = outcome_state (process_event cfg a st)"
    and "new = new_jobs st st'"
  shows "distinct (map inv_response new @ map inv_event new) \<and>
    (\<forall>job\<in>set new.
       next_addr st \<le> inv_response job \<and> next_addr st \<le> inv_event job \<and>
       dom (cells st' (inv_response job)) = {''username'', ''icon_emoji''} \<union> ({''channel''} \<inter> dom (cells st a)) \<and>
       cells st' (inv_response job) ''username'' = Some (PStr (username cfg)) \<and>
       cells st' (inv_response job) ''icon_emoji'' = Some (PStr (icon_emoji cfg)) \<and>
       cells st' (inv_response job) ''channel'' = cells st a ''channel'' \<and>
       cells st' (inv_event job) = cells st a) \<and>
    (\<forall>b<next_addr st. cells st' b = cells st b)"
proof -
  let ?n = "next_addr st"
  let ?ps = "matching (cells st a) (plugins st)"
  have new: "new = fresh_jobs ?n ?ps"
    unfolding assms(2,3) by (rule process_event_new_jobs)
  have d: "distinct (map inv_response new @ map inv_event new)"
    unfolding new by (rule fresh_jobs_distinct)
  have old: "\<forall>b<?n. cells st' b = cells st b"
    unfolding assms(2) by (simp add: process_event_cells [OF assms(1)])
  have each: "\<forall>job\<in>set new.
       ?n \<le> inv_response job \<and> ?n \<le> inv_event job \<and>
       cells st' (inv_response job) = new_response cfg (cells st a) \<and>
       cells st' (inv_event job) = cells st a"
  proof
    fix job assume "job \<in> set new"
    then obtain i where i: "i < length ?ps" "inv_response job = ?n + 2 * i"
      "inv_event job = Suc (?n + 2 * i)"
      unfolding new using fresh_jobs_addr by blast
    have r: "cells st' (inv_response job) = new_response cfg (cells st a)"
      unfolding assms(2) i(2) using i(1) by (simp add: process_event_cells [OF assms(1)])
    have e: "cells st' (inv_event job) = cells st a"
      unfolding assms(2) i(3) using i(1) by (simp add: process_event_cells [OF assms(1)])
    from r e i show "?n \<le> inv_response job \<and> ?n \<le> inv_event job \<and>
       cells st' (inv_response job) = new_response cfg (cells st a) \<and>
       cells st' (inv_event job) = cells st a" by simp
  qed
  from d old each show ?thesis by (simp add: new_response_entries)
qed

text \<open>The two invocations for the example message, with their objects.\<close>

theorem process_event_fresh_objects_witness:
  "(0::nat) < next_addr (engine msg_event) \<and>
   new_jobs (engine msg_event) (outcome_state (process_event cfg0 0 (engine msg_event))) =
     [\<lparr>inv_plugin = echo_plugin, inv_event = 2, inv_response = 1\<rparr>,
      \<lparr>inv_plugin = failing_plugin, inv_event = 4, inv_response = 3\<rparr>] \<and>
   cells (outcome_state (process_event cfg0 0 (engine msg_event))) 3 ''channel'' = Some (PStr ''C1'') \<and>
   cells (outcome_state (process_event cfg0 0 (engine msg_event))) 4 = msg_event \<and>
   dom (cells (outcome_state (process_event cfg0 0 (engine msg_event))) 3) =
     {''username'', ''icon_emoji'', ''channel''}"
proof -
  have a: "(0::nat) < next_addr (engine msg_event)" by (simp add: engine_def)
  have new: "new_jobs (engine msg_event) (outcome_state (process_event cfg0 0 (engine msg_event))) =
     [\<lparr>inv_plugin = echo_plugin, inv_event = 2, inv_response = 1\<rparr>,
      \<lparr>inv_plugin = failing_plugin, inv_event = 4, inv_response = 3\<rparr>]"
    by (simp add: process_event_new_jobs matching_def engine_def msg_event_def echo_plugin_def
        reaction_plugin_def failing_plugin_def numeral_eq_Suc)
  have m: "cells (engine msg_event) 0 = msg_event" by (simp add: engine_def)
  have dm: "{''channel''} \<inter> dom msg_event = {''channel''}" by (simp add: msg_event_def)
  have c: "msg_event ''channel'' = Some (PStr ''C1'')" by (simp add: msg_event_def)
  from process_event_fresh_objects [OF a refl refl, of cfg0] show ?thesis
    unfolding new using a by (simp add: m dm c insert_commute)
qed

text \<open>
  C2. An event whose \<^verbatim>\<open>subtype\<close> is \<^verbatim>\<open>'bot_message'\<close> or whose
  \<^verbatim>\<open>hidden\<close> value is true is skipped by the loop of \<^verbatim>\<open>run\<close> with the state
  as it was: nothing is matched, submitted, logged or raised for it. A whole run decides
  the same, and ends the same way, as the run on the polls without such events.
\<close>

theorem filtered_event_not_dispatched:
  "dict_get (cells st a) ''subtype'' = PStr ''bot_message'' \<or> truthy (dict_get (cells st a) ''hidden'') \<Longrightarrow>
     handle_event cfg a st = Returned st \<and>
     handle_events cfg (a # as) st = handle_events cfg as st \<and>
     decisions s (run_state (run cfg polls s)) =
       decisions s (run_state (run cfg (map (filter survives) polls) s)) \<and>
     crash_of (run cfg polls s) = crash_of (run cfg (map (filter survives) polls) s)"
proof -
  assume f: "dict_get (cells st a) ''subtype'' = PStr ''bot_message'' \<or> truthy (dict_get (cells st a) ''hidden'')"
  then have h: "handle_event cfg a st = Returned st"
    by (auto simp: handle_event_def Let_def)
  then have hs: "handle_events cfg (a # as) st = handle_events cfg as st" by simp
  have c: "concat (map (filter survives) polls) = filter survives (concat polls)"
    by (simp add: filter_concat)
  from h hs show ?thesis
    by (simp add: run_decisions run_crash c expected_survivors)
qed

text \<open>A bot message and a hidden message, each with three plugins loaded.\<close>

theorem filtered_event_not_dispatched_witness:
  "dict_get (cells (engine bot_event) 0) ''subtype'' = PStr ''bot_message'' \<and>
   handle_event cfg0 0 (engine bot_event) = Returned (engine bot_event) \<and>
   truthy (dict_get (cells (engine (msg_event(''hidden'' \<mapsto> PBool True))) 0) ''hidden'') \<and>
   handle_event cfg0 0 (engine (msg_event(''hidden'' \<mapsto> PBool True))) =
     Returned (engine (msg_event(''hidden'' \<mapsto> PBool True)))"
proof -
  have b: "dict_get (cells (engine bot_event) 0) ''subtype'' = PStr ''bot_message''"
    by (simp add: engine_def bot_event_def dict_get_def)
  have h: "truthy (dict_get (cells (engine (msg_event(''hidden'' \<mapsto> PBool True))) 0) ''hidden'')"
    by (simp add: engine_def dict_get_def)
  from filtered_event_not_dispatched [OF disjI1 [OF b], of cfg0]
       filtered_event_not_dispatched [OF disjI2 [OF h], of cfg0] b h
  show ?thesis by simp
qed

text \<open>
  C9. Two runs over the same polls with the same plugin collection make the same dispatch
  decisions, in the same order, and end the same way, whatever else differs between the
  two engines: their settings, their stores and the addresses they give out, what was
  submitted, posted and logged before.
\<close>

theorem dispatch_deterministic:
  "plugins st1 = plugins st2 \<Longrightarrow>
     decisions st1 (run_state (run cfg1 polls st1)) = decisions st2 (run_state (run cfg2 polls st2)) \<and>
     set (decisions st1 (run_state (run cfg1 polls st1))) = set (decisions st2 (run_state (run cfg2 polls st2))) \<and>
     crash_of (run cfg1 polls st1) = crash_of (run cfg2 polls st2)"
  by (simp add: run_decisions run_crash)

text \<open>
  Two engines with the same plugins that differ in their store, log and debug mode: both
  decide to give the message to the two message plugins and drop the bot message.
\<close>

theorem dispatch_deterministic_witness:
  "plugins (engine msg_event) = plugins ((engine bot_event)\<lparr>next_addr := 7, logged := [Info ''earlier'']\<rparr>) \<and>
   decisions (engine msg_event) (run_state (run cfg0 [[msg_event, bot_event]] (engine msg_event))) =
     [(msg_event, echo_plugin), (msg_event, failing_plugin)] \<and>
   decisions ((engine bot_event)\<lparr>next_addr := 7, logged := [Info ''earlier'']\<rparr>)
     (run_state (run (cfg0\<lparr>debug_mode := True\<rparr>) [[msg_event, bot_event]]
        ((engine bot_event)\<lparr>next_addr := 7, logged := [Info ''earlier'']\<rparr>))) =
     [(msg_event, echo_plugin), (msg_event, failing_plugin)]"
proof -
  have p: "plugins (engine msg_event) = plugins ((engine bot_event)\<lparr>next_addr := 7, logged := [Info ''earlier'']\<rparr>)"
    by (simp add: engine_def)
  have s1: "survives msg_event" by (simp add: survives_def dict_get_def msg_event_def)
  have s2: "\<not> survives bot_event" by (simp add: survives_def dict_get_def bot_event_def)
  have t: "msg_event ''type'' = Some (PStr ''message'')" by (simp add: msg_event_def)
  have d: "decisions (engine msg_event) (run_state (run cfg0 [[msg_event, bot_event]] (engine msg_event))) =
     [(msg_event, echo_plugin), (msg_event, failing_plugin)]"
    by (simp add: run_decisions s1 s2 t matching_def engine_def echo_plugin_def reaction_plugin_def
        failing_plugin_def)
  from dispatch_deterministic [OF p, of cfg0 "[[msg_event, bot_event]]" "cfg0\<lparr>debug_mode := True\<rparr>"] p d
  show ?thesis by simp
qed

text \<open>
  C10, as stated, fails when no plugin is loaded: the empty event passes both filters and
  has no \<^verbatim>\<open>type\<close>, yet \<^verbatim>\<open>process_event\<close> returns and the loop goes on to its
  next poll, since the lookup is inside the predicate of \<^verbatim>\<open>filter\<close>, which is never
  called on an empty collection.
\<close>

theorem typeless_event_no_plugins_counterexample:
  "survives Map.empty \<and> (Map.empty :: pydict) ''type'' = None \<and>
   process_event cfg0 0 (st0\<lparr>cells := (cells st0)(0 := Map.empty), next_addr := 1\<rparr>) =
     Returned (st0\<lparr>cells := (cells st0)(0 := Map.empty), next_addr := 1\<rparr>) \<and>
   run cfg0 [[Map.empty]] st0 =
     Polling (st0\<lparr>cells := (cells st0)(0 := Map.empty), next_addr := 1,
                  logged := [Info ''Starting bot loop...'']\<rparr>)"
  by (simp add: survives_def dict_get_def process_event_def debug_log_def cfg0_def st0_def run_def
      alloc_def log_append_def handle_event_def Let_def)

text \<open>
  C10, amended. \<^verbatim>\<open>process_event\<close> raises \<^verbatim>\<open>KeyError('type')\<close> exactly when
  the event has no \<^verbatim>\<open>type\<close> and the plugin collection is not empty, and then it
  has submitted nothing; the loop over the events hands the exception on, and \<^verbatim>\<open>run\<close>
  ends with it exactly when the collection is not empty and some polled event that passes
  the two filters has no \<^verbatim>\<open>type\<close>. Otherwise the loop goes on polling.
\<close>

theorem typeless_event_crashes_with_plugins:
  "outcome_exc (process_event cfg a st) =
     (if plugins st \<noteq> [] \<and> cells st a ''type'' = None then Some (KeyError (PStr ''type'')) else None) \<and>
   (outcome_exc (process_event cfg a st) \<noteq> None \<longrightarrow>
      submitted (outcome_state (process_event cfg a st)) = submitted st) \<and>
   (handle_event cfg a st = Raised e st1 \<longrightarrow> handle_events cfg (a # as) st = Raised e st1) \<and>
   crash_of (run cfg polls st) =
     (if plugins st \<noteq> [] \<and> (\<exists>event\<in>set (concat polls). survives event \<and> event ''type'' = None)
      then Some (KeyError (PStr ''type'')) else None)"
  by (simp add: process_event_exc run_crash expected_crash_iff process_event_cases)

text \<open>
  An event without \<^verbatim>\<open>type\<close> in the second poll ends the run of an engine with
  plugins, and not the run of one without.
\<close>

theorem typeless_event_crashes_with_plugins_witness:
  "plugins (engine Map.empty) \<noteq> [] \<and>
   outcome_exc (process_event cfg0 0 (engine Map.empty)) = Some (KeyError (PStr ''type'')) \<and>
   crash_of (run cfg0 [[msg_event], [Map.empty, msg_event]] (engine msg_event)) = Some (KeyError (PStr ''type'')) \<and>
   crash_of (run cfg0 [[msg_event], [Map.empty, msg_event]] st0) = None"
  using typeless_event_crashes_with_plugins [of cfg0 0 "engine Map.empty"]
    typeless_event_crashes_with_plugins [of cfg0 0 "engine msg_event" _ _ _ "[[msg_event], [Map.empty, msg_event]]"]
    typeless_event_crashes_with_plugins [of cfg0 0 st0 _ _ _ "[[msg_event], [Map.empty, msg_event]]"]
  by (simp add: engine_def st0_def survives_def dict_get_def msg_event_def)

section \<open>The error-reporting callback\<close>

text \<open>
  C4. \<^verbatim>\<open>post_error_response\<close> tests the truth value of the exception
  (\<^verbatim>\<open>if e:\<close>) before it tells a \<^verbatim>\<open>PluginException\<close> from another error. An
  exception that is not a \<^verbatim>\<open>PluginException\<close> and whose object is false (an
  instance of a class with \<^verbatim>\<open>__len__\<close> returning 0, say) is dropped: the callback
  returns with nothing posted and nothing logged, where the comment of the last branch
  says \<^verbatim>\<open>Else log exception\<close>. When the object is true, as an exception is by
  default, the callback posts nothing and appends exactly one error record to the log;
  without an exception it does nothing.
\<close>

theorem callback_drops_false_exception:
  "post_error_response dumps client p r (Some (OtherException n False)) st = Returned st \<and>
   (exc_truth e \<and> (\<forall>m t. e \<noteq> PluginException m t) \<longrightarrow>
      post_error_response dumps client p r (Some e) st = Returned (log_append (ErrorExc e) st) \<and>
      posted (log_append (ErrorExc e) st) = posted st \<and>
      logged (log_append (ErrorExc e) st) = logged st @ [ErrorExc e] \<and>
      cells (log_append (ErrorExc e) st) = cells st) \<and>
   post_error_response dumps client p r None st = Returned st"
  by (cases e) (auto simp: post_error_response_def log_append_def)

text \<open>
  A \<^verbatim>\<open>ValueError\<close> is logged once and not posted; an exception whose object is false
  leaves no trace.
\<close>

theorem callback_drops_false_exception_witness:
  "exc_truth (OtherException ''ValueError'' True) \<and>
   (\<forall>m t. OtherException ''ValueError'' True \<noteq> PluginException m t) \<and>
   post_error_response dumps0 client0 echo_plugin 0 (Some (OtherException ''ValueError'' True)) st0 =
     Returned (st0\<lparr>logged := [ErrorExc (OtherException ''ValueError'' True)]\<rparr>) \<and>
   post_error_response dumps0 client0 echo_plugin 0 (Some (OtherException ''Q'' False)) st0 = Returned st0 \<and>
   post_error_response dumps0 client0 echo_plugin 0 None st0 = Returned st0"
  using callback_drops_false_exception
    [of dumps0 client0 echo_plugin 0 "''Q''" st0 "OtherException ''ValueError'' True"]
  by (simp add: st0_def log_append_def)

text \<open>
  What the callback does with a \<^verbatim>\<open>PluginException\<close> whose object is true, when
  \<^verbatim>\<open>json.dumps\<close> returns and no entry of the draft is named like a parameter of
  \<^verbatim>\<open>api_call\<close>: one call is made, whatever the client does with it.
\<close>

lemma post_error_response_domain:
  assumes "dumps (PList [attach p m]) = Inr s"
    and "\<forall>k\<in>set api_call_params. cells st r k = None"
  shows "outcome_state (post_error_response dumps client p r (Some (PluginException m True)) st) =
     st\<lparr>cells := (cells st)(r := (cells st r)(''attachments'' \<mapsto> PStr s)),
        posted := posted st @ [(''chat.postMessage'', (cells st r)(''attachments'' \<mapsto> PStr s))]\<rparr>"
proof -
  have ok: "\<not> (\<exists>k\<in>set api_call_params. ((cells st r)(''attachments'' \<mapsto> PStr s)) k \<noteq> None)"
    using assms(2) by (simp add: api_call_params_def)
  show ?thesis
    using ok by (simp add: post_error_response_def assms(1) api_call_def Let_def split: option.splits)
qed

text \<open>
  C1, as stated, fails for a plugin that changes its draft before it raises: the response
  dictionary given to \<^verbatim>\<open>on_event\<close> is the object the callback posts. The event
  is in channel \<^verbatim>\<open>C1\<close>. A plugin that sets \<^verbatim>\<open>response['channel']\<close> to
  \<^verbatim>\<open>C2\<close> and raises a \<^verbatim>\<open>PluginException\<close> has the one message of the
  callback posted to \<^verbatim>\<open>C2\<close>. A plugin that sets \<^verbatim>\<open>response['method']\<close> and
  raises a \<^verbatim>\<open>PluginException\<close> has no message posted at all: the call
  \<^verbatim>\<open>api_call('chat.postMessage', **response)\<close> raises \<^verbatim>\<open>TypeError\<close>.
\<close>

theorem domain_error_posted_once_counterexample:
  "cells rerouting_engine 0 ''channel'' = Some (PStr ''C1'') \<and>
   new_jobs rerouting_engine (outcome_state (process_event cfg0 0 rerouting_engine)) =
     [\<lparr>inv_plugin = rerouting_plugin, inv_event = 2, inv_response = 1\<rparr>] \<and>
   raised (on_event rerouting_plugin (cells (outcome_state (process_event cfg0 0 rerouting_engine))) 2 1) =
     Some (PluginException (PStr ''boom'') True) \<and>
   length (posted (outcome_state
     (run_invocation dumps0 client0 \<lparr>inv_plugin = rerouting_plugin, inv_event = 2, inv_response = 1\<rparr>
        (outcome_state (process_event cfg0 0 rerouting_engine))))) = 1 \<and>
   snd (hd (posted (outcome_state
     (run_invocation dumps0 client0 \<lparr>inv_plugin = rerouting_plugin, inv_event = 2, inv_response = 1\<rparr>
        (outcome_state (process_event cfg0 0 rerouting_engine)))))) ''channel'' = Some (PStr ''C2'') \<and>
   new_jobs method_engine (outcome_state (process_event cfg0 0 method_engine)) =
     [\<lparr>inv_plugin = method_plugin, inv_event = 2, inv_response = 1\<rparr>] \<and>
   raised (on_event method_plugin (cells (outcome_state (process_event cfg0 0 method_engine))) 2 1) =
     Some (PluginException (PStr ''boom'') True) \<and>
   outcome_exc (run_invocation dumps0 client0 \<lparr>inv_plugin = method_plugin, inv_event = 2, inv_response = 1\<rparr>
        (outcome_state (process_event cfg0 0 method_engine))) = Some TypeError \<and>
   posted (outcome_state
     (run_invocation dumps0 client0 \<lparr>inv_plugin = method_plugin, inv_event = 2, inv_response = 1\<rparr>
        (outcome_state (process_event cfg0 0 method_engine)))) = []"
proof -
  have pe: "process_event cfg0 0 rerouting_engine =
      Returned (rerouting_engine\<lparr>cells := (cells rerouting_engine)(1 := new_response cfg0 msg_event, 2 := msg_event),
                 next_addr := 3,
                 submitted := [\<lparr>inv_plugin = rerouting_plugin, inv_event = 2, inv_response = 1\<rparr>]\<rparr>)"
    by (simp add: process_event_def debug_log_def cfg0_def rerouting_engine_def engine_def
        msg_event_def rerouting_plugin_def alloc_def Let_def numeral_eq_Suc)
  have pm: "process_event cfg0 0 method_engine =
      Returned (method_engine\<lparr>cells := (cells method_engine)(1 := new_response cfg0 msg_event, 2 := msg_event),
                 next_addr := 3,
                 submitted := [\<lparr>inv_plugin = method_plugin, inv_event = 2, inv_response = 1\<rparr>]\<rparr>)"
    by (simp add: process_event_def debug_log_def cfg0_def method_engine_def engine_def
        msg_event_def method_plugin_def alloc_def Let_def numeral_eq_Suc)
  have re: "cells rerouting_engine 0 ''channel'' = Some (PStr ''C1'') \<and>
   new_jobs rerouting_engine (outcome_state (process_event cfg0 0 rerouting_engine)) =
     [\<lparr>inv_plugin = rerouting_plugin, inv_event = 2, inv_response = 1\<rparr>] \<and>
   raised (on_event rerouting_plugin (cells (outcome_state (process_event cfg0 0 rerouting_engine))) 2 1) =
     Some (PluginException (PStr ''boom'') True) \<and>
   length (posted (outcome_state
     (run_invocation dumps0 client0 \<lparr>inv_plugin = rerouting_plugin, inv_event = 2, inv_response = 1\<rparr>
        (outcome_state (process_event cfg0 0 rerouting_engine))))) = 1 \<and>
   snd (hd (posted (outcome_state
     (run_invocation dumps0 client0 \<lparr>inv_plugin = rerouting_plugin, inv_event = 2, inv_response = 1\<rparr>
        (outcome_state (process_event cfg0 0 rerouting_engine)))))) ''channel'' = Some (PStr ''C2'')"
    unfolding pe
    by (simp add: rerouting_engine_def engine_def new_jobs_def run_invocation_def Let_def
        post_error_response_def api_call_def api_call_params_def dumps0_def client0_def
        new_response_def cfg0_def rerouting_plugin_def msg_event_def)
  have me: "new_jobs method_engine (outcome_state (process_event cfg0 0 method_engine)) =
     [\<lparr>inv_plugin = method_plugin, inv_event = 2, inv_response = 1\<rparr>] \<and>
   raised (on_event method_plugin (cells (outcome_state (process_event cfg0 0 method_engine))) 2 1) =
     Some (PluginException (PStr ''boom'') True) \<and>
   outcome_exc (run_invocation dumps0 client0 \<lparr>inv_plugin = method_plugin, inv_event = 2, inv_response = 1\<rparr>
        (outcome_state (process_event cfg0 0 method_engine))) = Some TypeError \<and>
   posted (outcome_state
     (run_invocation dumps0 client0 \<lparr>inv_plugin = method_plugin, inv_event = 2, inv_response = 1\<rparr>
        (outcome_state (process_event cfg0 0 method_engine)))) = []"
    unfolding pm
    by (simp add: method_engine_def engine_def new_jobs_def run_invocation_def Let_def
        post_error_response_def api_call_def api_call_params_def dumps0_def client0_def
        new_response_def cfg0_def method_plugin_def msg_event_def)
  from re me show ?thesis by blast
qed

text \<open>
  C1, amended. Take an invocation submitted by \<^verbatim>\<open>process_event\<close> for the event
  object \<open>a\<close>, completing in a state where its draft is as it was submitted, and whose
  \<^verbatim>\<open>on_event\<close> raises a \<^verbatim>\<open>PluginException\<close> with message \<open>m\<close> whose object is
  true. Let \<^verbatim>\<open>json.dumps\<close> return \<open>s\<close> for the list of the one attachment whose
  \<^verbatim>\<open>text\<close> and \<^verbatim>\<open>fallback\<close> are \<open>m\<close>, whose \<^verbatim>\<open>color\<close> is
  \<^verbatim>\<open>danger\<close> and whose title names the class of the plugin, and let the draft as the
  plugin left it have no entry named like a parameter of \<^verbatim>\<open>api_call\<close>. Then, after
  the calls the plugin made itself, exactly one call is made to the posting interface
  (\<^verbatim>\<open>chat.postMessage\<close>) and nothing is logged; its \<^verbatim>\<open>attachments\<close> are \<open>s\<close>;
  its \<^verbatim>\<open>channel\<close> is that of the draft as the plugin left it, which is the channel of
  the event (present or absent alike) whenever the plugin left the \<^verbatim>\<open>channel\<close> entry
  of the draft as it was.
\<close>

theorem domain_error_posted_once:
  assumes "a < next_addr st"
    and "st' = outcome_state (process_event cfg a st)"
    and "job \<in> set (new_jobs st st')"
    and "cells st2 (inv_response job) = cells st' (inv_response job)"
    and "eff = on_event (inv_plugin job) (cells st2) (inv_event job) (inv_response job)"
    and "raised eff = Some (PluginException m True)"
    and "dumps (PList [PDict [(''title'', PStr (''Error with plugin '' @ quoted (cls_name (inv_plugin job)))),
                              (''text'', m),
                              (''mrkdwn_in'', PList [PStr ''text'']),
                              (''color'', PStr ''danger''),
                              (''fallback'', m)]]) = Inr s"
    and "\<forall>k\<in>set api_call_params. store_after eff (inv_response job) k = None"
  shows "\<exists>msg.
    posted (outcome_state (run_invocation dumps client job st2)) =
      posted st2 @ sends eff @ [(''chat.postMessage'', msg)] \<and>
    logged (outcome_state (run_invocation dumps client job st2)) = logged st2 \<and>
    msg ''attachments'' = Some (PStr s) \<and>
    msg ''channel'' = store_after eff (inv_response job) ''channel'' \<and>
    (store_after eff (inv_response job) ''channel'' = cells st2 (inv_response job) ''channel'' \<longrightarrow>
       msg ''channel'' = cells st a ''channel'')"
proof -
  let ?p = "inv_plugin job"
  let ?r = "inv_response job"
  let ?msg = "(store_after eff ?r)(''attachments'' \<mapsto> PStr s)"
  let ?st1 = "st2\<lparr>cells := store_after eff, posted := posted st2 @ sends eff\<rparr>"
  have run: "run_invocation dumps client job st2 =
               post_error_response dumps client ?p ?r (Some (PluginException m True)) ?st1"
    using assms(5,6) by (simp add: run_invocation_def Let_def)
  have d: "dumps (PList [attach ?p m]) = Inr s"
    using assms(7) by (simp add: attach_def)
  have k: "\<forall>k\<in>set api_call_params. cells ?st1 ?r k = None"
    using assms(8) by simp
  note pd = post_error_response_domain [where dumps = dumps and client = client, OF d k]
  have p: "posted (outcome_state (run_invocation dumps client job st2)) =
             posted st2 @ sends eff @ [(''chat.postMessage'', ?msg)]"
    unfolding run pd by simp
  have l: "logged (outcome_state (run_invocation dumps client job st2)) = logged st2"
    unfolding run pd by simp
  have seeded: "cells st' ?r ''channel'' = cells st a ''channel''"
  proof -
    from assms(3) obtain i where i: "i < length (matching (cells st a) (plugins st))"
      "?r = next_addr st + 2 * i"
      unfolding assms(2) process_event_new_jobs using fresh_jobs_addr by blast
    have "cells st' ?r = new_response cfg (cells st a)"
      unfolding assms(2) i(2) using i(1) by (simp add: process_event_cells [OF assms(1)])
    then show ?thesis by (simp add: new_response_entries)
  qed
  have c: "store_after eff ?r ''channel'' = cells st2 ?r ''channel'' \<longrightarrow>
           ?msg ''channel'' = cells st a ''channel''"
    using seeded assms(4) by simp
  have at: "?msg ''attachments'' = Some (PStr s)" by simp
  have ch: "?msg ''channel'' = store_after eff ?r ''channel''" by simp
  from p l at ch c show ?thesis by blast
qed

text \<open>
  The failing plugin on the example message: one message, to the channel of the event.
\<close>

theorem domain_error_posted_once_witness:
  "(0::nat) < next_addr (engine msg_event) \<and>
   \<lparr>inv_plugin = failing_plugin, inv_event = 4, inv_response = 3\<rparr>
     \<in> set (new_jobs (engine msg_event) (outcome_state (process_event cfg0 0 (engine msg_event)))) \<and>
   raised (on_event failing_plugin (cells (outcome_state (process_event cfg0 0 (engine msg_event)))) 4 3) =
     Some (PluginException (PStr ''boom'') True) \<and>
   dumps0 (PList [PDict [(''title'', PStr (''Error with plugin '' @ quoted ''Failing'')),
                         (''text'', PStr ''boom''),
                         (''mrkdwn_in'', PList [PStr ''text'']),
                         (''color'', PStr ''danger''),
                         (''fallback'', PStr ''boom'')]]) = Inr ''[*]'' \<and>
   (\<exists>msg.
      posted (outcome_state
        (run_invocation dumps0 client0 \<lparr>inv_plugin = failing_plugin, inv_event = 4, inv_response = 3\<rparr>
           (outcome_state (process_event cfg0 0 (engine msg_event))))) =
        [(''chat.postMessage'', msg)] \<and>
      msg ''attachments'' = Some (PStr ''[*]'') \<and>
      msg ''channel'' = Some (PStr ''C1''))"
proof -
  let ?st = "engine msg_event"
  let ?st' = "outcome_state (process_event cfg0 0 ?st)"
  let ?job = "\<lparr>inv_plugin = failing_plugin, inv_event = 4, inv_response = 3\<rparr>"
  let ?eff = "\<lparr>store_after = cells ?st', sends = [], raised = Some (PluginException (PStr ''boom'') True)\<rparr>"
  have a: "(0::nat) < next_addr ?st" by (simp add: engine_def)
  have new: "new_jobs ?st ?st' =
     [\<lparr>inv_plugin = echo_plugin, inv_event = 2, inv_response = 1\<rparr>, ?job]"
    by (simp add: process_event_new_jobs matching_def engine_def msg_event_def echo_plugin_def
        reaction_plugin_def failing_plugin_def numeral_eq_Suc)
  have j: "?job \<in> set (new_jobs ?st ?st')" unfolding new by simp
  have m: "cells ?st 0 = msg_event" by (simp add: engine_def)
  have len: "length (matching msg_event (plugins ?st)) = 2"
    by (simp add: matching_def engine_def msg_event_def echo_plugin_def
        reaction_plugin_def failing_plugin_def)
  have n: "next_addr ?st = 1" by (simp add: engine_def)
  have c3: "cells ?st' 3 = new_response cfg0 msg_event"
    by (simp add: process_event_cells [OF a] len n m)
  have e: "?eff = on_event (inv_plugin ?job) (cells ?st') (inv_event ?job) (inv_response ?job)"
    by (simp add: failing_plugin_def)
  have r: "raised ?eff = Some (PluginException (PStr ''boom'') True)" by simp
  have r': "raised (on_event failing_plugin (cells ?st') 4 3) = Some (PluginException (PStr ''boom'') True)"
    by (simp add: failing_plugin_def)
  have d: "dumps0 (PList [PDict [(''title'', PStr (''Error with plugin '' @ quoted (cls_name (inv_plugin ?job)))),
                         (''text'', PStr ''boom''),
                         (''mrkdwn_in'', PList [PStr ''text'']),
                         (''color'', PStr ''danger''),
                         (''fallback'', PStr ''boom'')]]) = Inr ''[*]''"
    by (simp add: dumps0_def)
  have d': "dumps0 (PList [PDict [(''title'', PStr (''Error with plugin '' @ quoted ''Failing'')),
                         (''text'', PStr ''boom''),
                         (''mrkdwn_in'', PList [PStr ''text'']),
                         (''color'', PStr ''danger''),
                         (''fallback'', PStr ''boom'')]]) = Inr ''[*]''"
    by (simp add: dumps0_def)
  have nr: "new_response cfg0 msg_event ''self'' = None \<and> new_response cfg0 msg_event ''method'' = None"
    by (simp add: new_response_def msg_event_def)
  have k: "\<forall>k\<in>set api_call_params. store_after ?eff (inv_response ?job) k = None"
    by (simp add: c3 api_call_params_def nr)
  have ps: "posted ?st' = []"
    by (simp add: process_event_cases submit_all_frame engine_def debug_log_def log_append_def)
  have ch: "msg_event ''channel'' = Some (PStr ''C1'')" by (simp add: msg_event_def)
  from domain_error_posted_once
    [where a = 0 and st = "?st" and st' = "?st'" and cfg = cfg0 and job = "?job" and ?st2.0 = "?st'"
       and eff = "?eff" and m = "PStr ''boom''" and dumps = dumps0 and s = "''[*]''"
       and client = client0, OF a refl j refl e r d k]
  obtain msg where msg:
    "posted (outcome_state (run_invocation dumps0 client0 ?job ?st')) =
       posted ?st' @ sends ?eff @ [(''chat.postMessage'', msg)]"
    "msg ''attachments'' = Some (PStr ''[*]'')"
    "store_after ?eff (inv_response ?job) ''channel'' = cells ?st' (inv_response ?job) ''channel'' \<longrightarrow>
       msg ''channel'' = cells ?st 0 ''channel''"
    by blast
  have 1: "posted (outcome_state (run_invocation dumps0 client0 ?job ?st')) = [(''chat.postMessage'', msg)]"
    using msg(1) ps by simp
  have 3: "msg ''channel'' = Some (PStr ''C1'')"
    using msg(3) by (simp add: m ch)
  from a j r' d' 1 msg(2) 3 show ?thesis by blast
qed

section \<open>Loading plugins\<close>

text \<open>
  What registration does to the collection and to the count, in terms of the instances
  that the classes construct.
\<close>

lemma register_plugin_cases:
  "register_plugin cfg k st =
     (case k_init k [cfg] of
        Inl e \<Rightarrow> (False, log_append (ErrorMsg (''Error loading plugin '' @ k_name k @ ''! Skipping...'') e) st)
      | Inr p \<Rightarrow> (True, log_append (Info (''Successfully loaded plugin '' @ quoted (k_name k)))
                        (st\<lparr>plugins := plugins st @ [p]\<rparr>)))"
  by (simp add: register_plugin_def split: sum.splits)

lemma register_plugin_plugins:
  "plugins (snd (register_plugin cfg k st)) = plugins st @ constructed cfg [k]"
  by (simp add: register_plugin_cases constructed_def log_append_def split: sum.splits)

lemma register_plugin_ok:
  "fst (register_plugin cfg k st) = (constructed cfg [k] \<noteq> [])"
  by (simp add: register_plugin_cases constructed_def split: sum.splits)

lemma constructed_Nil: "constructed cfg [] = []"
  by (simp add: constructed_def)

lemma constructed_Cons: "constructed cfg (k # ks) = constructed cfg [k] @ constructed cfg ks"
  by (simp add: constructed_def)

lemma constructed_append: "constructed cfg (xs @ ys) = constructed cfg xs @ constructed cfg ys"
  by (simp add: constructed_def)

lemma constructed_failed: "k_init k [cfg] = Inl e \<Longrightarrow> constructed cfg [k] = []"
  by (simp add: constructed_def)

lemma register_classes_result:
  "plugins (fst (register_classes cfg ks st n)) = plugins st @ constructed cfg ks \<and>
   snd (register_classes cfg ks st n) = n + length (constructed cfg ks)"
proof (induction ks arbitrary: st n)
  case Nil
  then show ?case by (simp add: constructed_Nil)
next
  case (Cons k ks)
  let ?st1 = "snd (register_plugin cfg k st)"
  let ?n1 = "if fst (register_plugin cfg k st) then n + 1 else n"
  have step: "register_classes cfg (k # ks) st n = register_classes cfg ks ?st1 ?n1"
    by (simp add: split_def)
  have n1: "?n1 = n + length (constructed cfg [k])"
    by (cases "k_init k [cfg]") (simp_all add: register_plugin_cases constructed_def)
  from Cons.IH [of ?st1 "n + length (constructed cfg [k])"] show ?case
    unfolding step n1 register_plugin_plugins
    by (simp add: constructed_Cons [of cfg k ks])
qed

lemma load_files_result:
  "\<forall>(f, imported)\<in>set listing. snd (splitext f) = ''.py'' \<longrightarrow> (\<exists>classes. imported = Inr classes) \<Longrightarrow>
   \<exists>st1. load_files cfg listing st n = Inr (st1, n + length (constructed cfg (discovered listing))) \<and>
         plugins st1 = plugins st @ constructed cfg (discovered listing)"
proof (induction listing arbitrary: st n)
  case Nil
  then show ?case by (simp add: constructed_Nil)
next
  case (Cons entry listing)
  obtain f imported where entry: "entry = (f, imported)" by (cases entry)
  have rest: "\<forall>(f, imported)\<in>set listing. snd (splitext f) = ''.py'' \<longrightarrow> (\<exists>classes. imported = Inr classes)"
    using Cons.prems by simp
  show ?case
  proof (cases "snd (splitext f) = ''.py''")
    case False
    then show ?thesis using Cons.IH [OF rest, of st n] by (simp add: entry)
  next
    case True
    with Cons.prems obtain classes where classes: "imported = Inr classes"
      by (auto simp: entry)
    let ?st1 = "fst (register_classes cfg classes st n)"
    let ?n1 = "snd (register_classes cfg classes st n)"
    have step: "load_files cfg (entry # listing) st n = load_files cfg listing ?st1 ?n1"
      using True by (simp add: entry classes split_def Let_def)
    have d: "discovered (entry # listing) = classes @ discovered listing"
      using True by (simp add: entry classes)
    from Cons.IH [OF rest, of ?st1 ?n1] show ?thesis
      unfolding step d by (simp add: register_classes_result constructed_append add.assoc)
  qed
qed

text \<open>
  C5. Registering a class whose construction raises (whatever the exception) returns
  \<^verbatim>\<open>False\<close> and leaves the plugin collection as it was, and the classes after it
  are registered as if it had not been there: the collection and the count come out the
  same with and without it. When every module of the directory can be imported,
  \<^verbatim>\<open>load_plugins\<close> returns, the collection has grown by exactly the instances that
  were constructed, in order, and the number in the last log record
  (\<^verbatim>\<open>Loaded n plugins!\<close>) is the number of plugins added, which is the size of the
  collection when it was empty before, as \<^verbatim>\<open>__init__\<close> leaves it.
\<close>

theorem failed_construction_skipped:
  assumes "\<forall>(f, imported)\<in>set listing. snd (splitext f) = ''.py'' \<longrightarrow> (\<exists>classes. imported = Inr classes)"
  shows "(\<forall>e. k_init k [cfg] = Inl e \<longrightarrow>
            fst (register_plugin cfg k st) = False \<and>
            plugins (snd (register_plugin cfg k st)) = plugins st \<and>
            plugins (fst (register_classes cfg (ks1 @ k # ks2) st n)) =
              plugins (fst (register_classes cfg (ks1 @ ks2) st n)) \<and>
            snd (register_classes cfg (ks1 @ k # ks2) st n) = snd (register_classes cfg (ks1 @ ks2) st n)) \<and>
         (\<exists>st'. load_plugins cfg listing st = Returned st' \<and>
            plugins st' = plugins st @ constructed cfg (discovered listing) \<and>
            last (logged st') =
              Info (''Loaded '' @ str_nat (length (plugins st') - length (plugins st)) @ '' plugins!'') \<and>
            (plugins st = [] \<longrightarrow>
               last (logged st') = Info (''Loaded '' @ str_nat (length (plugins st')) @ '' plugins!'')))"
proof -
  have fail: "\<forall>e. k_init k [cfg] = Inl e \<longrightarrow>
            fst (register_plugin cfg k st) = False \<and>
            plugins (snd (register_plugin cfg k st)) = plugins st \<and>
            plugins (fst (register_classes cfg (ks1 @ k # ks2) st n)) =
              plugins (fst (register_classes cfg (ks1 @ ks2) st n)) \<and>
            snd (register_classes cfg (ks1 @ k # ks2) st n) = snd (register_classes cfg (ks1 @ ks2) st n)"
    by (simp add: register_plugin_ok register_plugin_plugins register_classes_result constructed_append
        constructed_Cons [of cfg k ks2] constructed_failed)
  let ?st0 = "log_append (Info (''Loading plugins from directory '' @ quoted (plugin_directory cfg) @ ''...'')) st"
  from load_files_result [OF assms, of cfg ?st0 0]
  obtain st1 where st1: "load_files cfg listing ?st0 0 = Inr (st1, length (constructed cfg (discovered listing)))"
    "plugins st1 = plugins ?st0 @ constructed cfg (discovered listing)" by auto
  let ?st' = "log_append (Info (''Loaded '' @ str_nat (length (constructed cfg (discovered listing))) @ '' plugins!'')) st1"
  have lp: "load_plugins cfg listing st = Returned ?st'"
    unfolding load_plugins_def Let_def st1(1) by simp
  have pl: "plugins ?st' = plugins st @ constructed cfg (discovered listing)"
    using st1(2) by (simp add: log_append_def)
  have lg: "last (logged ?st') =
      Info (''Loaded '' @ str_nat (length (plugins ?st') - length (plugins st)) @ '' plugins!'')"
    unfolding pl by (simp add: log_append_def)
  have lg0: "plugins st = [] \<longrightarrow>
      last (logged ?st') = Info (''Loaded '' @ str_nat (length (plugins ?st')) @ '' plugins!'')"
    using lg by auto
  from fail lp pl lg lg0 show ?thesis by blast
qed

text \<open>File names of the examples, split.\<close>

lemma splitext_examples:
  "splitext ''echo.py'' = (''echo'', ''.py'')"
  "splitext ''README.md'' = (''README'', ''.md'')"
  "splitext ''broken.py'' = (''broken'', ''.py'')"
  "splitext ''uptime.py'' = (''uptime'', ''.py'')"
  "splitext ''.py'' = (''.py'', [])"
  by (simp_all add: splitext_def Let_def)

text \<open>
  A directory with three classes in two modules, one of which raises when constructed:
  the two others are loaded, and two is the count reported.
\<close>

theorem failed_construction_skipped_witness:
  "discovered listing0 = [Echo, Broken, Echo] \<and>
   k_init Broken [cfg0] = Inl (OtherException ''RuntimeError'' True) \<and>
   plugins (snd (register_plugin cfg0 Broken st0)) = [] \<and>
   (\<exists>st'. load_plugins cfg0 listing0 st0 = Returned st' \<and>
      plugins st' = [echo_plugin, echo_plugin] \<and>
      last (logged st') = Info ''Loaded 2 plugins!'')"
proof -
  have imp: "\<forall>(f, imported)\<in>set listing0. snd (splitext f) = ''.py'' \<longrightarrow> (\<exists>classes. imported = Inr classes)"
    by (simp add: listing0_def)
  have b: "k_init Broken [cfg0] = Inl (OtherException ''RuntimeError'' True)"
    by (simp add: Broken_def)
  have d: "discovered listing0 = [Echo, Broken, Echo]"
    by (simp add: listing0_def splitext_examples)
  have c: "constructed cfg0 [Echo, Broken, Echo] = [echo_plugin, echo_plugin]"
    by (simp add: constructed_def Echo_def Broken_def)
  have s: "str_nat (Suc (Suc 0)) = ''2''" by (simp add: str_nat.simps)
  have p0: "plugins st0 = []" by (simp add: st0_def)
  have r: "plugins (snd (register_plugin cfg0 Broken st0)) = []"
    using failed_construction_skipped [OF imp, of Broken cfg0 st0 "[]" "[]" 0] b p0 by simp
  have l: "\<exists>st'. load_plugins cfg0 listing0 st0 = Returned st' \<and>
      plugins st' = [echo_plugin, echo_plugin] \<and>
      last (logged st') = Info ''Loaded 2 plugins!''"
    using failed_construction_skipped [OF imp, of Broken cfg0 st0 "[]" "[]" 0]
    unfolding d c p0 by (auto simp: s)
  from d b r l show ?thesis by blast
qed

text \<open>
  C6. \<^verbatim>\<open>register_plugin\<close> calls the class with one argument, the bot
  (\<^verbatim>\<open>plugin(self)\<close>). The initializer of \<^verbatim>\<open>Uptime\<close>, the plugin that comes
  with the program, takes no argument: called with none it returns an instance, but
  called by \<^verbatim>\<open>register_plugin\<close> it raises \<^verbatim>\<open>TypeError\<close>, so the class is
  skipped and loading its module adds nothing to the collection.
\<close>

theorem uptime_not_constructed:
  "(\<exists>p. k_init (Uptime base) [] = Inr p \<and> cls_name p = ''Uptime'') \<and>
   register_plugin cfg (Uptime base) st =
     (False, log_append (ErrorMsg ''Error loading plugin Uptime! Skipping...'' TypeError) st) \<and>
   plugins (outcome_state (load_plugins cfg [(''uptime.py'', Inr [Uptime base])] st)) = plugins st"
  by (simp add: register_plugin_def Uptime_def load_plugins_def Let_def splitext_examples
      log_append_def)

section \<open>Command lookup\<close>

lemma trigger_in_iff: "trigger_in t ts \<longleftrightarrow> t \<in> set ts"
  by (induction ts) auto

lemma get_command_loop_Some:
  "get_command_loop t ps = Some p \<Longrightarrow>
     p \<in> set ps \<and> (\<exists>c. command p = Some c \<and> t \<in> set (triggers c))"
  by (induction ps) (auto simp: trigger_in_iff split: option.splits if_splits)

lemma get_command_loop_None:
  "get_command_loop t ps = None \<longleftrightarrow>
     (\<forall>p\<in>set ps. \<forall>c. command p = Some c \<longrightarrow> t \<notin> set (triggers c))"
  by (induction ps) (auto simp: trigger_in_iff split: option.splits if_splits)

lemma get_command_loop_first:
  "get_command_loop t ps =
     find (\<lambda>p. case command p of None \<Rightarrow> False | Some c \<Rightarrow> t \<in> set (triggers c)) ps"
  by (induction ps) (auto simp: trigger_in_iff split: option.splits)

lemma command_targets_set:
  assumes "event ''type'' = Some (PStr ''message'')" and "event_token cfg event = Some t"
  shows "set (command_targets cfg event ps) =
           {p \<in> set ps. event_type p = ''message'' \<and> (\<exists>c. command p = Some c \<and> t \<in> set (triggers c))}"
  using assms by (auto simp: command_targets_def trigger_in_iff split: option.splits)

text \<open>
  C7. \<^verbatim>\<open>get_command\<close> returns a plugin only if it is in the collection, is a command
  plugin, and has a trigger equal to the one asked for (equality of strings, character by
  character); it returns the first such plugin of the collection, and \<^verbatim>\<open>None\<close> exactly
  when no command plugin has the trigger. For a message event whose leading token is
  \<open>t\<close>, the plugins whose \<^verbatim>\<open>on_command\<close> it reaches are exactly the command plugins
  of the collection with \<open>t\<close> among their triggers, every command plugin being one for
  message events; they are among the plugins \<^verbatim>\<open>process_event\<close> selects, and there is
  one exactly when \<^verbatim>\<open>get_command\<close> finds one.
\<close>

theorem get_command_exact_trigger:
  "(get_command st t = Some p \<longrightarrow>
      p \<in> set (plugins st) \<and> is_command p \<and> (\<exists>c. command p = Some c \<and> t \<in> set (triggers c))) \<and>
   get_command st t =
     find (\<lambda>p. case command p of None \<Rightarrow> False | Some c \<Rightarrow> t \<in> set (triggers c)) (plugins st) \<and>
   (get_command st t = None \<longleftrightarrow>
      (\<forall>p\<in>set (plugins st). \<forall>c. command p = Some c \<longrightarrow> t \<notin> set (triggers c))) \<and>
   (event ''type'' = Some (PStr ''message'') \<and> event_token cfg event = Some t \<and>
    (\<forall>p\<in>set (plugins st). is_command p \<longrightarrow> event_type p = ''message'') \<longrightarrow>
      set (command_targets cfg event (plugins st)) =
        {p \<in> set (plugins st). \<exists>c. command p = Some c \<and> t \<in> set (triggers c)} \<and>
      set (command_targets cfg event (plugins st)) \<subseteq> set (matching event (plugins st)) \<and>
      (command_targets cfg event (plugins st) = [] \<longleftrightarrow> get_command st t = None))"
proof -
  have 1: "get_command st t = Some p \<longrightarrow>
      p \<in> set (plugins st) \<and> is_command p \<and> (\<exists>c. command p = Some c \<and> t \<in> set (triggers c))"
    using get_command_loop_Some [of t "plugins st" p] by (auto simp: get_command_def is_command_def)
  have 2: "get_command st t =
     find (\<lambda>p. case command p of None \<Rightarrow> False | Some c \<Rightarrow> t \<in> set (triggers c)) (plugins st)"
    by (simp add: get_command_def get_command_loop_first)
  have 3: "get_command st t = None \<longleftrightarrow>
      (\<forall>p\<in>set (plugins st). \<forall>c. command p = Some c \<longrightarrow> t \<notin> set (triggers c))"
    by (simp add: get_command_def get_command_loop_None)
  have 4: "set (command_targets cfg event (plugins st)) =
        {p \<in> set (plugins st). \<exists>c. command p = Some c \<and> t \<in> set (triggers c)} \<and>
      set (command_targets cfg event (plugins st)) \<subseteq> set (matching event (plugins st)) \<and>
      (command_targets cfg event (plugins st) = [] \<longleftrightarrow> get_command st t = None)"
    if ty: "event ''type'' = Some (PStr ''message'')" and tok: "event_token cfg event = Some t"
      and msg: "\<forall>p\<in>set (plugins st). is_command p \<longrightarrow> event_type p = ''message''"
  proof -
    have s: "set (command_targets cfg event (plugins st)) =
        {p \<in> set (plugins st). \<exists>c. command p = Some c \<and> t \<in> set (triggers c)}"
      unfolding command_targets_set [OF ty tok] using msg by (auto simp: is_command_def)
    have m: "set (command_targets cfg event (plugins st)) \<subseteq> set (matching event (plugins st))"
      unfolding command_targets_set [OF ty tok] by (auto simp: matching_def ty)
    have "command_targets cfg event (plugins st) = [] \<longleftrightarrow> set (command_targets cfg event (plugins st)) = {}"
      by simp
    also have "\<dots> \<longleftrightarrow> get_command st t = None"
      unfolding s 3 by blast
    finally show ?thesis using s m by blast
  qed
  from 1 2 3 4 show ?thesis by blast
qed

text \<open>
  With \<open>echo_plugin\<close> and \<open>uptime_plugin\<close> loaded, \<^verbatim>\<open>uptime\<close> finds the command and
  \<^verbatim>\<open>Uptime\<close> finds nothing; the message \<^verbatim>\<open>!uptime\<close> reaches the command.
\<close>

theorem get_command_exact_trigger_witness:
  "get_command (st0\<lparr>plugins := [echo_plugin, uptime_plugin]\<rparr>) ''uptime'' = Some uptime_plugin \<and>
   uptime_plugin \<in> set (plugins (st0\<lparr>plugins := [echo_plugin, uptime_plugin]\<rparr>)) \<and>
   is_command uptime_plugin \<and>
   get_command (st0\<lparr>plugins := [echo_plugin, uptime_plugin]\<rparr>) ''Uptime'' = None \<and>
   msg_event ''type'' = Some (PStr ''message'') \<and>
   event_token cfg0 msg_event = Some ''uptime'' \<and>
   set (command_targets cfg0 msg_event (plugins (st0\<lparr>plugins := [echo_plugin, uptime_plugin]\<rparr>))) =
     {uptime_plugin}"
proof -
  let ?st = "st0\<lparr>plugins := [echo_plugin, uptime_plugin]\<rparr>"
  have g: "get_command ?st ''uptime'' = Some uptime_plugin"
    by (simp add: get_command_def echo_plugin_def uptime_plugin_def command_base_def)
  have n: "get_command ?st ''Uptime'' = None"
    by (simp add: get_command_def echo_plugin_def uptime_plugin_def command_base_def)
  have ty: "msg_event ''type'' = Some (PStr ''message'')" by (simp add: msg_event_def)
  have tok: "event_token cfg0 msg_event = Some ''uptime''"
    by (simp add: event_token_def msg_event_def cfg0_def leading_token_def is_space_def)
  have msg: "\<forall>p\<in>set (plugins ?st). is_command p \<longrightarrow> event_type p = ''message''"
    by (simp add: echo_plugin_def uptime_plugin_def command_base_def)
  have sel: "{p \<in> set (plugins ?st). \<exists>c. command p = Some c \<and> ''uptime'' \<in> set (triggers c)} = {uptime_plugin}"
    by (auto simp: echo_plugin_def uptime_plugin_def command_base_def)
  from get_command_exact_trigger [of ?st "''uptime''" uptime_plugin msg_event cfg0] g ty tok msg
  have "uptime_plugin \<in> set (plugins ?st) \<and> is_command uptime_plugin \<and>
        set (command_targets cfg0 msg_event (plugins ?st)) = {uptime_plugin}"
    unfolding sel by blast
  with g n ty tok show ?thesis by blast
qed

end
